theory Spec2Isabelle
  imports Complex_Main "HOL-Library.AList" "HOL-Library.Sublist"
begin

text \<open>
  A model of \<^verbatim>\<open>fierce.py\<close>, a DNS reconnaissance tool: the address arithmetic of the
  expansion strategies, the reverse-lookup filter, and the discovery pipeline with its
  visited set.  The DNS library, the random label and the files are parameters of the
  model; a run is a pure function of them that returns the trace of what it did and its
  result or the exception that ended it.
\<close>

section \<open>Exceptions\<close>

text \<open>
  Every \<^verbatim>\<open>raise\<close> the program can meet is a value of \<open>exn\<close>; a computation that may
  raise returns \<open>exn + 'a\<close> with \<open>Inl\<close> for the exception.  \<open>NXDOMAIN\<close> is
  \<^verbatim>\<open>dns.resolver.NXDOMAIN\<close>, \<open>FormError\<close> is \<^verbatim>\<open>dns.exception.FormError\<close> (with its
  subclasses), \<open>OtherError\<close> is any other exception of the DNS library or the operating
  system, tagged with its class name (\<^verbatim>\<open>Timeout\<close>, \<^verbatim>\<open>NoAnswer\<close>, \<^verbatim>\<open>NoNameservers\<close>,
  \<^verbatim>\<open>ConnectionRefusedError\<close>, ...).
\<close>

datatype exn =
    NXDOMAIN
  | ConnectionResetError
  | FormError
  | TypeError
  | IndexError
  | AttributeError
  | AddressValueError
  | NetmaskValueError
  | ValueError
  | OtherError string

section \<open>Addresses and networks (module ipaddress)\<close>

text \<open>
  An \<^verbatim>\<open>IPv4Address\<close> object holds an integer \<open>0 \<le> ip < 2^32\<close>.  Python integers are
  unbounded, so the model keeps \<open>int\<close> and writes the constructor's range check out.  The
  dotted-quad text of an address and the address determine each other; the model keeps
  the integer wherever the source passes the text.
\<close>

definition valid_ipv4 :: "int \<Rightarrow> bool" where
  "valid_ipv4 ip = (0 \<le> ip \<and> ip < 2 ^ 32)"

definition IPv4Address :: "int \<Rightarrow> exn + int" where
  "IPv4Address n = (if n < 0 \<or> 2 ^ 32 \<le> n then Inl AddressValueError else Inr n)"

datatype ip_object = V4 int | V6 int

text \<open>\<^verbatim>\<open>ipaddress.ip_address(n)\<close> on an integer: IPv4 if it fits, else IPv6, else \<^verbatim>\<open>ValueError\<close>.\<close>

definition ip_address :: "int \<Rightarrow> exn + ip_object" where
  "ip_address n =
     (if 0 \<le> n \<and> n < 2 ^ 32 then Inr (V4 n)
      else if 0 \<le> n \<and> n < 2 ^ 128 then Inr (V6 n)
      else Inl ValueError)"

record ipv4network =
  network_address :: int
  prefixlen :: nat

text \<open>
  \<^verbatim>\<open>ipaddress.IPv4Network('{}/p'.format(addr))\<close> with the default \<^verbatim>\<open>strict=True\<close>: the text of
  an IPv6 address is no IPv4 address, the prefix length is at most 32, and no host bit
  may be set.
\<close>

definition IPv4Network :: "ip_object \<Rightarrow> nat \<Rightarrow> exn + ipv4network" where
  "IPv4Network addr p =
     (case addr of
        V6 n \<Rightarrow> Inl AddressValueError
      | V4 n \<Rightarrow>
          if 32 < p then Inl NetmaskValueError
          else if n mod 2 ^ (32 - p) \<noteq> 0 then Inl ValueError
          else Inr \<lparr>network_address = n, prefixlen = p\<rparr>)"

definition num_addresses :: "ipv4network \<Rightarrow> int" where
  "num_addresses net = 2 ^ (32 - prefixlen net)"

definition broadcast_address :: "ipv4network \<Rightarrow> int" where
  "broadcast_address net = network_address net + num_addresses net - 1"

text \<open>\<^verbatim>\<open>ip in net\<close> for an \<^verbatim>\<open>IPv4Address\<close> and an \<^verbatim>\<open>IPv4Network\<close>.\<close>

definition in_network :: "int \<Rightarrow> ipv4network \<Rightarrow> bool" where
  "in_network ip net = (network_address net \<le> ip \<and> ip \<le> broadcast_address net)"

text \<open>\<^verbatim>\<open>list(net)\<close>: every address from the network address to the broadcast address.\<close>

definition list_network :: "ipv4network \<Rightarrow> int list" where
  "list_network net = [network_address net..broadcast_address net]"

section \<open>AddressSpace: get_class_c_network, traverse_expander, wide_expander\<close>

definition get_class_c_network :: "int \<Rightarrow> exn + ipv4network" where
  "get_class_c_network ip =
     (case ip_address (ip - (ip mod (2 ^ 8))) of
        Inl e \<Rightarrow> Inl e
      | Inr floored \<Rightarrow> IPv4Network floored 24)"

text \<open>A list comprehension whose element expression may raise: the first raise ends it.\<close>

fun map_exn :: "('a \<Rightarrow> exn + 'b) \<Rightarrow> 'a list \<Rightarrow> exn + 'b list" where
  "map_exn f [] = Inr []"
| "map_exn f (x # xs) =
     (case f x of
        Inl e \<Rightarrow> Inl e
      | Inr y \<Rightarrow> (case map_exn f xs of Inl e \<Rightarrow> Inl e | Inr ys \<Rightarrow> Inr (y # ys)))"

text \<open>
  \<^verbatim>\<open>range(-n, n + 1)\<close> is the integer interval \<open>[-n..n]\<close>, empty for negative \<open>n\<close>;
  \<^verbatim>\<open>ip + i\<close> builds a new \<^verbatim>\<open>IPv4Address\<close> from the unbounded sum, so the constructor's check
  runs on every offset before the class-C test of the second comprehension.
\<close>

definition traverse_expander :: "int \<Rightarrow> int \<Rightarrow> exn + int list" where
  "traverse_expander ip n =
     (case get_class_c_network ip of
        Inl e \<Rightarrow> Inl e
      | Inr class_c \<Rightarrow>
          (case map_exn (\<lambda>i. IPv4Address (ip + i)) [- n..n] of
             Inl e \<Rightarrow> Inl e
           | Inr result \<Rightarrow> Inr (filter (\<lambda>i. in_network i class_c) result)))"

definition wide_expander :: "int \<Rightarrow> exn + int list" where
  "wide_expander ip =
     (case get_class_c_network ip of
        Inl e \<Rightarrow> Inl e
      | Inr class_c \<Rightarrow> Inr (list_network class_c))"

section \<open>The DNS collaborator and the event trace\<close>

text \<open>
  An rdata object of the DNS library: every rdata has \<^verbatim>\<open>to_text()\<close>; only an A rdata has the
  attribute \<^verbatim>\<open>address\<close> and only an SOA rdata has \<^verbatim>\<open>mname\<close> (reading a missing attribute
  raises \<^verbatim>\<open>AttributeError\<close>).  An answer is the list of its rdatas; a zone is the list of
  its (name, node text) items.
\<close>

record rdata =
  to_text :: string
  address :: "int option"
  mname :: "string option"

type_synonym answer = "rdata list"

type_synonym zone = "(string \<times> string) list"

text \<open>
  The resolver object, as far as the program touches it: \<^verbatim>\<open>resolver.nameservers\<close>, \<open>None\<close>
  while the system configuration is in force.
\<close>

type_synonym resolver = "string list option"

text \<open>
  What lies outside the program: \<^verbatim>\<open>resolver.query(domain, record_type)\<close>,
  \<^verbatim>\<open>dns.reversename.from_address\<close> (of the text of an address),
  \<^verbatim>\<open>dns.zone.from_xfr(dns.query.xfr(address, domain))\<close>, the decimal text of
  \<^verbatim>\<open>random.randint(1e10, 1e11)\<close>, and \<^verbatim>\<open>open(path).readlines()\<close>.
\<close>

record dns_env =
  resolver_query :: "resolver \<Rightarrow> string \<Rightarrow> string \<Rightarrow> exn + answer"
  from_address :: "int \<Rightarrow> string"
  from_xfr :: "int \<Rightarrow> string \<Rightarrow> exn + zone"
  random_label :: string
  readlines :: "string \<Rightarrow> exn + string list"

text \<open>
  The trace of a run: every call that leaves the program, every line it prints, and every
  call of \<^verbatim>\<open>find_nearby\<close> with its arguments.
\<close>

datatype event =
    Query resolver string string
  | Xfr int string
  | Readlines string
  | Call_find_nearby "int list" "(string \<Rightarrow> bool) option"
  | Print_Nearby
  | Pprint_Nearby "(int \<times> string) list"
  | Print_NS "string list"
  | Print_SOA string int
  | Print_Zone bool
  | Pprint_Zone zone
  | Print_Wildcard bool
  | Print_Found string int
  | Sleep real

text \<open>A computation: the events it produced, and its value or the exception that ended it.\<close>

type_synonym 'a io = "event list \<times> (exn + 'a)"

definition return_io :: "'a \<Rightarrow> 'a io" where
  "return_io x = ([], Inr x)"

definition lift_io :: "exn + 'a \<Rightarrow> 'a io" where
  "lift_io r = ([], r)"

definition emit :: "event \<Rightarrow> unit io" where
  "emit ev = ([ev], Inr ())"

definition bind_io :: "'a io \<Rightarrow> ('a \<Rightarrow> 'b io) \<Rightarrow> 'b io" where
  "bind_io m f =
     (case m of
        (t, Inl e) \<Rightarrow> (t, Inl e)
      | (t, Inr x) \<Rightarrow> (case f x of (t', r) \<Rightarrow> (t @ t', r)))"

text \<open>\<^verbatim>\<open>x[0]\<close> on a sequence, and on a value that may be \<^verbatim>\<open>None\<close>; reading an attribute.\<close>

definition item0 :: "'a list \<Rightarrow> exn + 'a" where
  "item0 xs = (case xs of [] \<Rightarrow> Inl IndexError | x # _ \<Rightarrow> Inr x)"

definition subscript0 :: "'a list option \<Rightarrow> exn + 'a" where
  "subscript0 v = (case v of None \<Rightarrow> Inl TypeError | Some xs \<Rightarrow> item0 xs)"

definition getattr :: "'a option \<Rightarrow> exn + 'a" where
  "getattr v = (case v of None \<Rightarrow> Inl AttributeError | Some x \<Rightarrow> Inr x)"

definition bind_exn :: "exn + 'a \<Rightarrow> ('a \<Rightarrow> exn + 'b) \<Rightarrow> exn + 'b" where
  "bind_exn r f = (case r of Inl e \<Rightarrow> Inl e | Inr x \<Rightarrow> f x)"

text \<open>Truth value of an optional list or string: \<^verbatim>\<open>None\<close> and the empty one are false.\<close>

definition truthy :: "'a list option \<Rightarrow> bool" where
  "truthy v = (case v of None \<Rightarrow> False | Some [] \<Rightarrow> False | Some (x # xs) \<Rightarrow> True)"

definition is_space :: "char \<Rightarrow> bool" where
  "is_space c = (c \<in> {CHR '' '', CHR 0x09, CHR 0x0A, CHR 0x0B, CHR 0x0C, CHR 0x0D})"

definition strip :: "string \<Rightarrow> string" where
  "strip s = rev (dropWhile is_space (rev (dropWhile is_space s)))"

section \<open>query, reverse_query, zone_transfer\<close>

definition query :: "dns_env \<Rightarrow> resolver \<Rightarrow> string \<Rightarrow> string \<Rightarrow> answer option io" where
  "query env resolver dname record_type =
     ([Query resolver dname record_type],
      case resolver_query env resolver dname record_type of
        Inl e \<Rightarrow> if e = NXDOMAIN then Inr None else Inl e
      | Inr ans \<Rightarrow> Inr (Some ans))"

definition reverse_query :: "dns_env \<Rightarrow> resolver \<Rightarrow> int \<Rightarrow> answer option io" where
  "reverse_query env resolver ip = query env resolver (from_address env ip) ''PTR''"

definition zone_transfer :: "dns_env \<Rightarrow> int \<Rightarrow> string \<Rightarrow> zone option io" where
  "zone_transfer env addr dname =
     ([Xfr addr dname],
      case from_xfr env addr dname of
        Inl e \<Rightarrow> if e = ConnectionResetError \<or> e = FormError then Inr None else Inl e
      | Inr z \<Rightarrow> Inr (Some z))"

section \<open>ReverseLookupFilter: search_filter, find_nearby\<close>

text \<open>\<^verbatim>\<open>domain in address\<close> on strings is containment as a contiguous substring.\<close>

definition search_filter :: "string list \<Rightarrow> string \<Rightarrow> bool" where
  "search_filter domains addr = list_ex (\<lambda>d. sublist d addr) domains"

text \<open>
  Line 57: the dictionary comprehension queries the addresses in iteration order and
  stores each answer under the address; an exception of a query ends the comprehension.
  The dictionary is an association list in insertion order, keyed by the address (for its
  text).
\<close>

fun reversed_ips_dict ::
  "dns_env \<Rightarrow> resolver \<Rightarrow> int list \<Rightarrow> (int \<times> answer option) list \<Rightarrow> (int \<times> answer option) list io"
where
  "reversed_ips_dict env resolver [] d = return_io d"
| "reversed_ips_dict env resolver (i # ips) d =
     bind_io (reverse_query env resolver i)
       (\<lambda>v. reversed_ips_dict env resolver ips (AList.update i v d))"

text \<open>Line 58: keep the items whose value is not \<^verbatim>\<open>None\<close>.\<close>

definition drop_none :: "('k \<times> 'v option) list \<Rightarrow> ('k \<times> 'v) list" where
  "drop_none d = concat (map (\<lambda>(k, v). case v of None \<Rightarrow> [] | Some a \<Rightarrow> [(k, a)]) d)"

text \<open>A comprehension with a condition that may raise.\<close>

fun filter_exn :: "('a \<Rightarrow> exn + bool) \<Rightarrow> 'a list \<Rightarrow> exn + 'a list" where
  "filter_exn p [] = Inr []"
| "filter_exn p (x # xs) =
     (case p x of
        Inl e \<Rightarrow> Inl e
      | Inr b \<Rightarrow>
          (case filter_exn p xs of
             Inl e \<Rightarrow> Inl e
           | Inr ys \<Rightarrow> Inr (if b then x # ys else ys)))"

definition find_nearby ::
  "dns_env \<Rightarrow> resolver \<Rightarrow> int list \<Rightarrow> (string \<Rightarrow> bool) option \<Rightarrow> unit io"
where
  "find_nearby env resolver ips filter_func =
     bind_io (emit (Call_find_nearby ips filter_func)) (\<lambda>_.
     bind_io (reversed_ips_dict env resolver ips []) (\<lambda>d.
     bind_io
       (case filter_func of
          None \<Rightarrow> return_io (drop_none d)
        | Some f \<Rightarrow>
            lift_io
              (filter_exn (\<lambda>(k, v). bind_exn (item0 v) (\<lambda>r. Inr (f (to_text r)))) (drop_none d)))
       (\<lambda>reversed_ips.
     if reversed_ips = [] then return_io ()
     else
       bind_io (emit Print_Nearby) (\<lambda>_.
       bind_io
         (lift_io (map_exn (\<lambda>(k, v). bind_exn (item0 v) (\<lambda>r. Inr (k, to_text r))) reversed_ips))
         (\<lambda>out. emit (Pprint_Nearby out))))))"

section \<open>DiscoveryPipeline: fierce\<close>

text \<open>
  The keyword arguments of \<^verbatim>\<open>fierce\<close>, as \<^verbatim>\<open>parse_args\<close> delivers them.  The CIDR text of
  \<^verbatim>\<open>range\<close> is kept as the address and the prefix length it denotes; the delay is a float
  of which only the sign and the zero test matter.
\<close>

record config =
  domain :: "string option"
  wide :: bool
  traverse :: int
  search :: "string list option"
  range_cidr :: "(int \<times> nat) option"
  delay :: "real option"
  subdomains :: "string list option"
  subdomain_file :: string
  dns_servers :: "string list option"
  dns_file :: "string option"

text \<open>
  Lines 72 to 81: the resolver and its nameservers (creating the resolver object is taken
  to succeed).
\<close>

definition setup_nameservers :: "dns_env \<Rightarrow> config \<Rightarrow> resolver io" where
  "setup_nameservers env kwargs =
     bind_io
       (if truthy (dns_servers kwargs) then return_io (dns_servers kwargs)
        else
          (case dns_file kwargs of
             None \<Rightarrow> return_io None
           | Some [] \<Rightarrow> return_io None
           | Some path \<Rightarrow>
               bind_io ([Readlines path], readlines env path)
                 (\<lambda>ls. return_io (Some (map strip ls)))))
       (\<lambda>nameservers. return_io (if truthy nameservers then nameservers else None))"

text \<open>Lines 83 to 85: the scan of the internal range.\<close>

definition range_scan :: "dns_env \<Rightarrow> config \<Rightarrow> resolver \<Rightarrow> unit io" where
  "range_scan env kwargs resolver =
     (case range_cidr kwargs of
        None \<Rightarrow> return_io ()
      | Some (a, p) \<Rightarrow>
          bind_io (lift_io (bind_exn (IPv4Address a) (\<lambda>a'. IPv4Network (V4 a') p)))
            (\<lambda>internal_range. find_nearby env resolver (list_network internal_range) None))"

text \<open>
  Lines 134 to 136: \<^verbatim>\<open>functools.partial(search_filter, kwargs["search"])\<close> when the option
  holds a non-empty list, else \<^verbatim>\<open>None\<close>.
\<close>

definition search_filter_func :: "config \<Rightarrow> (string \<Rightarrow> bool) option" where
  "search_filter_func kwargs =
     (case search kwargs of
        None \<Rightarrow> None
      | Some [] \<Rightarrow> None
      | Some doms \<Rightarrow> Some (search_filter doms))"

text \<open>
  Lines 134 to 144: the filter, the visited set, the reverse lookups and the delay.  The
  set \<^verbatim>\<open>set(ips) - set(visited)\<close> is enumerated in the order of the candidates (Python
  leaves the order open); \<^verbatim>\<open>time.sleep\<close> refuses a negative duration.
\<close>

definition visit_nearby ::
  "dns_env \<Rightarrow> config \<Rightarrow> resolver \<Rightarrow> int list \<Rightarrow> int set \<Rightarrow> int set io"
where
  "visit_nearby env kwargs resolver ips visited =
     (let filter_func = search_filter_func kwargs;
          ips' = filter (\<lambda>a. a \<notin> visited) (remdups ips);
          visited' = visited \<union> set ips'
      in
        bind_io (find_nearby env resolver ips' filter_func) (\<lambda>_.
        bind_io
          (case delay kwargs of
             None \<Rightarrow> return_io ()
           | Some d \<Rightarrow>
               if d = 0 then return_io ()
               else if d < 0 then lift_io (Inl ValueError)
               else emit (Sleep d))
          (\<lambda>_. return_io visited')))"

text \<open>Lines 118 to 144: one iteration of the loop over the subdomains.\<close>

definition loop_body ::
  "dns_env \<Rightarrow> config \<Rightarrow> resolver \<Rightarrow> string \<Rightarrow> string \<Rightarrow> int set \<Rightarrow> int set io"
where
  "loop_body env kwargs resolver dname subdomain visited =
     (let url = subdomain @ ''.'' @ dname in
        bind_io (query env resolver url ''A'') (\<lambda>record.
        case record of
          None \<Rightarrow> return_io visited
        | Some ans \<Rightarrow>
            bind_io
              (lift_io (bind_exn (item0 ans) (\<lambda>r. bind_exn (getattr (address r)) IPv4Address)))
              (\<lambda>ip.
            bind_io (emit (Print_Found url ip)) (\<lambda>_.
            if wide kwargs then
              bind_io (lift_io (wide_expander ip))
                (\<lambda>ips. visit_nearby env kwargs resolver ips visited)
            else if traverse kwargs \<noteq> 0 then
              bind_io (lift_io (traverse_expander ip (traverse kwargs)))
                (\<lambda>ips. visit_nearby env kwargs resolver ips visited)
            else return_io visited))))"

text \<open>Lines 117 to 144: the loop, threading the visited set.\<close>

fun subdomain_loop ::
  "dns_env \<Rightarrow> config \<Rightarrow> resolver \<Rightarrow> string \<Rightarrow> string list \<Rightarrow> int set \<Rightarrow> int set io"
where
  "subdomain_loop env kwargs resolver dname [] visited = return_io visited"
| "subdomain_loop env kwargs resolver dname (subdomain # rest) visited =
     bind_io (loop_body env kwargs resolver dname subdomain visited)
       (\<lambda>visited'. subdomain_loop env kwargs resolver dname rest visited')"

text \<open>
  Lines 106 to 144: the wildcard probe, the list of subdomains and the loop.  An answer
  object is true when it holds an rdata.
\<close>

definition brute_force :: "dns_env \<Rightarrow> config \<Rightarrow> resolver \<Rightarrow> string \<Rightarrow> unit io" where
  "brute_force env kwargs resolver dname =
     bind_io (query env resolver (random_label env @ ''.'' @ dname) ''A'') (\<lambda>wildcard.
     bind_io (emit (Print_Wildcard (truthy wildcard))) (\<lambda>_.
     bind_io
       (case subdomains kwargs of
          Some (s # ss) \<Rightarrow> return_io (s # ss)
        | _ \<Rightarrow>
            bind_io
              ([Readlines (subdomain_file kwargs)], readlines env (subdomain_file kwargs))
              (\<lambda>ls. return_io (map strip ls)))
       (\<lambda>subdomains.
     bind_io (subdomain_loop env kwargs resolver dname subdomains {})
       (\<lambda>_. return_io ()))))"

text \<open>
  Lines 90 to 104, and the rest of the run when the zone transfer failed.  Iterating over
  \<^verbatim>\<open>None\<close> and subscripting \<^verbatim>\<open>None\<close> raise \<^verbatim>\<open>TypeError\<close>.  A zone object defines
  neither \<^verbatim>\<open>__bool__\<close> nor \<^verbatim>\<open>__len__\<close>, so \<^verbatim>\<open>if zone\<close> tests that it is not \<^verbatim>\<open>None\<close>.
\<close>

definition domain_scan :: "dns_env \<Rightarrow> config \<Rightarrow> resolver \<Rightarrow> string \<Rightarrow> unit io" where
  "domain_scan env kwargs resolver dname =
     bind_io (query env resolver dname ''NS'') (\<lambda>ns.
     bind_io
       (lift_io (case ns of None \<Rightarrow> Inl TypeError | Some ans \<Rightarrow> Inr (map to_text ans)))
       (\<lambda>domain_name_servers.
     bind_io (emit (Print_NS domain_name_servers)) (\<lambda>_.
     bind_io (query env resolver dname ''SOA'') (\<lambda>soa.
     bind_io (lift_io (bind_exn (subscript0 soa) (\<lambda>r. getattr (mname r)))) (\<lambda>soa_mname.
     bind_io (query env resolver soa_mname ''A'') (\<lambda>master.
     bind_io (lift_io (bind_exn (subscript0 master) (\<lambda>r. getattr (address r))))
       (\<lambda>master_address.
     bind_io (emit (Print_SOA soa_mname master_address)) (\<lambda>_.
     bind_io (zone_transfer env master_address dname) (\<lambda>zone.
     bind_io (emit (Print_Zone (zone \<noteq> None))) (\<lambda>_.
     case zone of
       Some z \<Rightarrow> emit (Pprint_Zone z)
     | None \<Rightarrow> brute_force env kwargs resolver dname))))))))))"

definition fierce :: "dns_env \<Rightarrow> config \<Rightarrow> unit io" where
  "fierce env kwargs =
     bind_io (setup_nameservers env kwargs) (\<lambda>resolver.
     bind_io (range_scan env kwargs resolver) (\<lambda>_.
     case domain kwargs of
       None \<Rightarrow> return_io ()
     | Some [] \<Rightarrow> return_io ()
     | Some dname \<Rightarrow> domain_scan env kwargs resolver dname))"

section \<open>Notions used in the statements\<close>

text \<open>The answer of the PTR lookup of an address, \<open>None\<close> when there is none.\<close>

definition ptr_answer :: "dns_env \<Rightarrow> resolver \<Rightarrow> int \<Rightarrow> answer option" where
  "ptr_answer env r i = (case snd (reverse_query env r i) of Inl e \<Rightarrow> None | Inr v \<Rightarrow> v)"

text \<open>The filter of \<^verbatim>\<open>find_nearby\<close> as a predicate: no filter accepts every hostname.\<close>

definition accepts :: "(string \<Rightarrow> bool) option \<Rightarrow> string \<Rightarrow> bool" where
  "accepts filter_func host = (case filter_func of None \<Rightarrow> True | Some f \<Rightarrow> f host)"

text \<open>The events that a call of \<^verbatim>\<open>find_nearby\<close> produces after its own call event.\<close>

definition nearby_event :: "event \<Rightarrow> bool" where
  "nearby_event ev =
     (case ev of
        Query r n t \<Rightarrow> t = ''PTR''
      | Print_Nearby \<Rightarrow> True
      | Pprint_Nearby out \<Rightarrow> True
      | _ \<Rightarrow> False)"

text \<open>
  The batches handed to \<^verbatim>\<open>find_nearby\<close> in a trace, and the addresses of the reported
  subdomain hits, both in order.
\<close>

fun nearby_batches :: "event list \<Rightarrow> int list list" where
  "nearby_batches [] = []"
| "nearby_batches (Call_find_nearby ips ff # t) = ips # nearby_batches t"
| "nearby_batches (ev # t) = nearby_batches t"

fun found_ips :: "event list \<Rightarrow> int list" where
  "found_ips [] = []"
| "found_ips (Print_Found url ip # t) = ip # found_ips t"
| "found_ips (ev # t) = found_ips t"

text \<open>The events of the loop over the subdomains under a given configuration.\<close>

definition loop_event :: "config \<Rightarrow> event \<Rightarrow> bool" where
  "loop_event kwargs ev =
     (case ev of
        Query r n t \<Rightarrow> t = ''A'' \<or> t = ''PTR''
      | Call_find_nearby ips ff \<Rightarrow> ff = search_filter_func kwargs
      | Print_Nearby \<Rightarrow> True
      | Pprint_Nearby out \<Rightarrow> True
      | Print_Found url ip \<Rightarrow> True
      | Sleep d \<Rightarrow> True
      | _ \<Rightarrow> False)"

text \<open>The candidates of a hit: what the configured expansion returns, nothing when it raises.\<close>

definition candidates :: "config \<Rightarrow> int \<Rightarrow> int list" where
  "candidates kwargs ip =
     (if wide kwargs then (case wide_expander ip of Inl e \<Rightarrow> [] | Inr ips \<Rightarrow> ips)
      else if traverse kwargs \<noteq> 0 then
        (case traverse_expander ip (traverse kwargs) of Inl e \<Rightarrow> [] | Inr ips \<Rightarrow> ips)
      else [])"

section \<open>An example environment\<close>

text \<open>
  A small DNS world for the concrete runs: the zone \<^verbatim>\<open>example.test\<close> with two nameservers,
  an SOA master at 10.0.0.1, the hosts \<^verbatim>\<open>www\<close> (10.0.0.5) and \<^verbatim>\<open>mail\<close> (10.0.0.4), PTR
  records for 10.0.0.3, 10.0.0.5 and 10.0.0.7, a zone \<^verbatim>\<open>nosoa.test\<close> that has nameservers
  but no SOA record, and a zone \<^verbatim>\<open>nomaster.test\<close> whose SOA master has no address.  Every
  other name does not exist.  The master resets the connection of a zone transfer.  In
  \<open>flaky_env\<close> the PTR lookup of 10.0.0.6 times out.
\<close>

definition ptr_rdata :: "string \<Rightarrow> rdata" where
  "ptr_rdata host = \<lparr>to_text = host, address = None, mname = None\<rparr>"

definition a_rdata :: "string \<Rightarrow> int \<Rightarrow> rdata" where
  "a_rdata t a = \<lparr>to_text = t, address = Some a, mname = None\<rparr>"

definition soa_rdata :: "string \<Rightarrow> rdata" where
  "soa_rdata m = \<lparr>to_text = m, address = None, mname = Some m\<rparr>"

definition example_query :: "resolver \<Rightarrow> string \<Rightarrow> string \<Rightarrow> exn + answer" where
  "example_query r n t =
     (if t = ''PTR'' then
        (if n = ''3.0.0.10.in-addr.arpa.'' then Inr [ptr_rdata ''db.example.test.'']
         else if n = ''5.0.0.10.in-addr.arpa.'' then Inr [ptr_rdata ''www.example.test.'']
         else if n = ''7.0.0.10.in-addr.arpa.'' then Inr [ptr_rdata ''Backup.Example.TEST.'']
         else Inl NXDOMAIN)
      else if t = ''NS'' then
        (if n = ''example.test'' then Inr [ptr_rdata ''ns1.example.test.'', ptr_rdata ''ns2.example.test.'']
         else if n = ''nosoa.test'' then Inr [ptr_rdata ''ns.nosoa.test.'']
         else if n = ''nomaster.test'' then Inr [ptr_rdata ''ns.nomaster.test.'']
         else Inl NXDOMAIN)
      else if t = ''SOA'' then
        (if n = ''example.test'' then Inr [soa_rdata ''ns1.example.test.'']
         else if n = ''nomaster.test'' then Inr [soa_rdata ''gone.nomaster.test.'']
         else Inl NXDOMAIN)
      else if t = ''A'' then
        (if n = ''ns1.example.test.'' then Inr [a_rdata ''10.0.0.1'' 167772161]
         else if n = ''www.example.test'' then Inr [a_rdata ''10.0.0.5'' 167772165]
         else if n = ''mail.example.test'' then Inr [a_rdata ''10.0.0.4'' 167772164]
         else Inl NXDOMAIN)
      else Inl NXDOMAIN)"

definition example_reverse_name :: "int \<Rightarrow> string" where
  "example_reverse_name a =
     (if a = 167772162 then ''2.0.0.10.in-addr.arpa.''
      else if a = 167772163 then ''3.0.0.10.in-addr.arpa.''
      else if a = 167772164 then ''4.0.0.10.in-addr.arpa.''
      else if a = 167772165 then ''5.0.0.10.in-addr.arpa.''
      else if a = 167772166 then ''6.0.0.10.in-addr.arpa.''
      else if a = 167772167 then ''7.0.0.10.in-addr.arpa.''
      else ''in-addr.arpa.'')"

definition example_env :: dns_env where
  "example_env =
     \<lparr>resolver_query = example_query,
      from_address = example_reverse_name,
      from_xfr = (\<lambda>a d. Inl ConnectionResetError),
      random_label = ''31415926535'',
      readlines = (\<lambda>path. Inr [])\<rparr>"

definition flaky_env :: dns_env where
  "flaky_env =
     example_env\<lparr>resolver_query :=
       (\<lambda>r n t. if t = ''PTR'' \<and> n = ''6.0.0.10.in-addr.arpa.'' then Inl (OtherError ''Timeout'')
                else example_query r n t)\<rparr>"

text \<open>
  The configuration of the concrete runs: the domain \<^verbatim>\<open>example.test\<close>, the subdomains
  \<^verbatim>\<open>www\<close> and \<^verbatim>\<open>mail\<close>, a traversal window of 2, and nothing else.
\<close>

definition example_config :: config where
  "example_config =
     \<lparr>domain = Some ''example.test'', wide = False, traverse = 2, search = None,
      range_cidr = None, delay = None, subdomains = Some [''www'', ''mail''],
      subdomain_file = ''lists/default.txt'', dns_servers = None, dns_file = None\<rparr>"

section \<open>Unfolding the model on concrete runs\<close>

lemmas example_defs =
  example_env_def example_query_def example_reverse_name_def ptr_rdata_def a_rdata_def soa_rdata_def
  flaky_env_def

lemmas run_defs =
  find_nearby_def reverse_query_def query_def bind_io_def return_io_def emit_def lift_io_def
  bind_exn_def item0_def drop_none_def search_filter_def

lemmas pipeline_defs =
  fierce_def setup_nameservers_def range_scan_def domain_scan_def brute_force_def loop_body_def
  visit_nearby_def search_filter_func_def zone_transfer_def subscript0_def getattr_def truthy_def
  wide_expander_def traverse_expander_def get_class_c_network_def ip_address_def IPv4Network_def
  IPv4Address_def in_network_def broadcast_address_def num_addresses_def list_network_def
  upto_rec1 example_config_def Let_def

section \<open>Properties of AddressSpace\<close>

lemma floor256: "ip - ip mod 256 = 256 * (ip div 256)" for ip :: int
  by (simp add: minus_mod_eq_mult_div)

lemma get_class_c_network_valid:
  assumes "valid_ipv4 ip"
  shows "get_class_c_network ip = Inr \<lparr>network_address = ip - ip mod 256, prefixlen = 24\<rparr>"
proof -
  have r: "0 \<le> ip" "ip < 4294967296"
    using assms by (simp_all add: valid_ipv4_def)
  have m: "0 \<le> ip mod 256"
    by simp
  have "0 \<le> ip div 256"
    using r by (simp add: pos_imp_zdiv_nonneg_iff)
  then have lo: "0 \<le> ip - ip mod 256"
    by (simp add: floor256)
  have hi: "ip - ip mod 256 < 4294967296"
    using r m by linarith
  have al: "(ip - ip mod 256) mod 256 = 0"
    by (simp add: floor256)
  show ?thesis
    using lo hi al by (simp add: get_class_c_network_def ip_address_def IPv4Network_def)
qed

lemma div256_iff: "256 * q \<le> a \<and> a \<le> 256 * q + 255 \<longleftrightarrow> a div 256 = q" for a q :: int
  by linarith

lemma in_class_c_iff:
  "in_network a \<lparr>network_address = ip - ip mod 256, prefixlen = 24\<rparr>
     \<longleftrightarrow> ip - ip mod 256 \<le> a \<and> a \<le> ip - ip mod 256 + 255"
  by (auto simp add: in_network_def broadcast_address_def num_addresses_def)

lemma in_class_c_div:
  "in_network a \<lparr>network_address = ip - ip mod 256, prefixlen = 24\<rparr> \<longleftrightarrow> a div 256 = ip div 256"
proof -
  have "ip - ip mod 256 \<le> a \<and> a \<le> ip - ip mod 256 + 255 \<longleftrightarrow> a div 256 = ip div 256"
    unfolding floor256 by (rule div256_iff)
  then show ?thesis unfolding in_class_c_iff .
qed

lemma map_exn_all_ok:
  "(\<And>x. x \<in> set xs \<Longrightarrow> f x = Inr (g x)) \<Longrightarrow> map_exn f xs = Inr (map g xs)"
  by (induction xs) auto

text \<open>
  C4.  For every IPv4 address \<open>A\<close>, \<open>get_class_c_network A\<close> raises nothing and returns the
  /24 network anchored at \<open>A - A mod 256\<close>; the network contains \<open>A\<close>; it has exactly 256
  addresses (as \<open>num_addresses\<close>, as the enumeration \<open>list_network\<close>, which has no
  repetition, and as the set of integers that pass the membership test); and it is the
  class-C of each of its members, so every address has exactly one.
\<close>

theorem class_c_network_correct:
  assumes "valid_ipv4 A"
  shows "\<exists>c. get_class_c_network A = Inr c
           \<and> network_address c = A - A mod 256
           \<and> prefixlen c = 24
           \<and> in_network A c
           \<and> num_addresses c = 256
           \<and> length (list_network c) = 256
           \<and> distinct (list_network c)
           \<and> set (list_network c) = {a. in_network a c}
           \<and> card {a. in_network a c} = 256
           \<and> (\<forall>B. valid_ipv4 B \<and> in_network B c \<longrightarrow> get_class_c_network B = Inr c)"
proof -
  let ?c = "\<lparr>network_address = A - A mod 256, prefixlen = 24\<rparr>"
  have eq: "get_class_c_network A = Inr ?c"
    using assms by (rule get_class_c_network_valid)
  have mem: "in_network A ?c"
    by (simp add: in_class_c_div)
  have num: "num_addresses ?c = 256"
    by (simp add: num_addresses_def)
  have len: "length (list_network ?c) = 256"
    by (simp add: list_network_def broadcast_address_def num_addresses_def)
  have dis: "distinct (list_network ?c)"
    by (simp add: list_network_def)
  have st: "set (list_network ?c) = {a. in_network a ?c}"
    by (auto simp: list_network_def in_network_def)
  have "card (set (list_network ?c)) = length (list_network ?c)"
    using dis by (rule distinct_card)
  then have crd: "card {a. in_network a ?c} = 256"
    using len st by simp
  have uniq: "\<forall>B. valid_ipv4 B \<and> in_network B ?c \<longrightarrow> get_class_c_network B = Inr ?c"
  proof (intro allI impI)
    fix B assume b: "valid_ipv4 B \<and> in_network B ?c"
    then have "B div 256 = A div 256" by (simp add: in_class_c_div)
    then have "B - B mod 256 = A - A mod 256" by (simp add: floor256)
    then show "get_class_c_network B = Inr ?c"
      using b get_class_c_network_valid[of B] by simp
  qed
  show ?thesis
    apply (rule exI[of _ ?c])
    using eq mem num len dis st crd uniq by (intro conjI) simp_all
qed

theorem class_c_network_correct_witness:
  "valid_ipv4 167772165
     \<and> (\<exists>c. get_class_c_network 167772165 = Inr c
           \<and> network_address c = 167772160
           \<and> in_network 167772165 c
           \<and> num_addresses c = 256
           \<and> card {a. in_network a c} = 256)"
proof -
  have v: "valid_ipv4 167772165" by (simp add: valid_ipv4_def)
  from class_c_network_correct[OF v] obtain c where
    "get_class_c_network 167772165 = Inr c" "network_address c = 167772165 - 167772165 mod 256"
    "in_network 167772165 c" "num_addresses c = 256" "card {a. in_network a c} = 256"
    by blast
  then show ?thesis using v by simp
qed

lemma map_exn_first_raise:
  "map_exn f (xs @ x # ys) = Inl e" if "\<And>y. y \<in> set xs \<Longrightarrow> \<exists>v. f y = Inr v" "f x = Inl e"
  using that
proof (induction xs)
  case Nil
  then show ?case by simp
next
  case (Cons a xs)
  obtain v where "f a = Inr v" using Cons.prems(1)[of a] by auto
  moreover have "map_exn f (xs @ x # ys) = Inl e" using Cons by simp
  ultimately show ?case by simp
qed

lemma IPv4Address_ok: "0 \<le> a \<Longrightarrow> a < 4294967296 \<Longrightarrow> IPv4Address a = Inr a"
  by (simp add: IPv4Address_def)

lemma traverse_expander_window:
  assumes v: "valid_ipv4 A" and n: "0 \<le> n" and lo: "n \<le> A" and hi: "A + n < 2 ^ 32"
  shows "\<exists>r. traverse_expander A n = Inr r \<and> distinct r
           \<and> set r = {a. A - n \<le> a \<and> a \<le> A + n
                        \<and> in_network a \<lparr>network_address = A - A mod 256, prefixlen = 24\<rparr>}"
proof -
  let ?c = "\<lparr>network_address = A - A mod 256, prefixlen = 24\<rparr>"
  have "map_exn (\<lambda>i. IPv4Address (A + i)) [- n..n] = Inr (map (\<lambda>i. A + i) [- n..n])"
  proof (rule map_exn_all_ok)
    fix i assume "i \<in> set [- n..n]"
    then have "0 \<le> A + i" "A + i < 4294967296" using lo hi by auto
    then show "IPv4Address (A + i) = Inr (A + i)" by (rule IPv4Address_ok)
  qed
  then have eq: "traverse_expander A n = Inr (filter (\<lambda>a. in_network a ?c) (map (\<lambda>i. A + i) [- n..n]))"
    by (simp add: traverse_expander_def get_class_c_network_valid[OF v])
  have d: "distinct (filter (\<lambda>a. in_network a ?c) (map (\<lambda>i. A + i) [- n..n]))"
    by (simp add: distinct_map inj_on_def)
  have s: "set (filter (\<lambda>a. in_network a ?c) (map (\<lambda>i. A + i) [- n..n]))
             = {a. A - n \<le> a \<and> a \<le> A + n \<and> in_network a ?c}"
  proof -
    have "(\<lambda>i. A + i) ` {- n..n} = {A - n..A + n}"
      by (auto simp: image_iff intro: bexI[of _ "x - A" for x])
    then show ?thesis by auto
  qed
  show ?thesis using eq d s by simp
qed

text \<open>
  C3.  On the edge of the address space \<open>traverse_expander\<close> does not clip: when the window
  \<open>[A - n, A + n]\<close> of an IPv4 address \<open>A\<close> and a non-negative \<open>n\<close> reaches below 0.0.0.0
  or above 255.255.255.255, the first comprehension raises \<^verbatim>\<open>AddressValueError\<close> before
  the class-C test is reached, and no address is returned.
\<close>

theorem traverse_expander_raises_at_edge:
  assumes v: "valid_ipv4 A" and n: "0 \<le> n" and out: "A < n \<or> 2 ^ 32 \<le> A + n"
  shows "traverse_expander A n = Inl AddressValueError"
proof -
  have r: "0 \<le> A" "A < 4294967296" using v by (simp_all add: valid_ipv4_def)
  have "map_exn (\<lambda>i. IPv4Address (A + i)) [- n..n] = Inl AddressValueError"
  proof (cases "A < n")
    case True
    have "[- n..n] = [] @ (- n) # [- n + 1..n]" using n by (simp add: upto_rec1)
    moreover have "IPv4Address (A + - n) = Inl AddressValueError"
      using True by (simp add: IPv4Address_def)
    ultimately show ?thesis using map_exn_first_raise[of "[]" "\<lambda>i. IPv4Address (A + i)" "- n"] by simp
  next
    case False
    then have big: "4294967296 \<le> A + n" using out by simp
    let ?k = "4294967296 - A"
    have k: "- n \<le> ?k" "?k \<le> n" using big r n by auto
    then have sp: "[- n..n] = [- n..?k - 1] @ ?k # [?k + 1..n]"
      by (rule upto_split3)
    have ok: "\<exists>v. IPv4Address (A + y) = Inr v" if "y \<in> set [- n..?k - 1]" for y
      using that False by (auto simp: IPv4Address_def)
    have bad: "IPv4Address (A + ?k) = Inl AddressValueError"
      by (simp add: IPv4Address_def)
    show ?thesis unfolding sp using ok bad by (rule map_exn_first_raise)
  qed
  then show ?thesis
    by (simp add: traverse_expander_def get_class_c_network_valid[OF v])
qed

theorem traverse_expander_raises_at_edge_witness:
  "valid_ipv4 2 \<and> (0::int) \<le> 5 \<and> (2::int) < 5 \<and> traverse_expander 2 5 = Inl AddressValueError"
proof -
  have v: "valid_ipv4 2" by (simp add: valid_ipv4_def)
  show ?thesis using v traverse_expander_raises_at_edge[OF v, of 5] by simp
qed

lemma traverse_expander_example_inside:
  "traverse_expander 167772165 2 = Inr [167772163, 167772164, 167772165, 167772166, 167772167]"
  by (simp add: traverse_expander_def get_class_c_network_def ip_address_def IPv4Network_def
      IPv4Address_def in_network_def broadcast_address_def num_addresses_def upto_rec1)

lemma traverse_expander_example_clipped:
  "traverse_expander 167772161 2 = Inr [167772160, 167772161, 167772162, 167772163]"
  by (simp add: traverse_expander_def get_class_c_network_def ip_address_def IPv4Network_def
      IPv4Address_def in_network_def broadcast_address_def num_addresses_def upto_rec1)

section \<open>Properties of zone_transfer\<close>

text \<open>
  C8.  Of the errors that the transfer can raise, exactly \<^verbatim>\<open>ConnectionResetError\<close> and
  \<^verbatim>\<open>FormError\<close> are caught by \<open>zone_transfer\<close> and turned into \<open>None\<close>; every other error
  leaves \<open>zone_transfer\<close> as it was raised; a zone that arrives is returned; and \<open>None\<close> is
  returned in no other case than the two caught errors.
\<close>

theorem zone_transfer_error_taxonomy:
  "(\<forall>e. from_xfr env a d = Inl e \<longrightarrow>
        (snd (zone_transfer env a d) = Inr None \<longleftrightarrow> e = ConnectionResetError \<or> e = FormError)
      \<and> (e \<noteq> ConnectionResetError \<and> e \<noteq> FormError \<longrightarrow> snd (zone_transfer env a d) = Inl e))
   \<and> (\<forall>z. from_xfr env a d = Inr z \<longrightarrow> snd (zone_transfer env a d) = Inr (Some z))
   \<and> (snd (zone_transfer env a d) = Inr None \<longrightarrow>
        from_xfr env a d = Inl ConnectionResetError \<or> from_xfr env a d = Inl FormError)
   \<and> fst (zone_transfer env a d) = [Xfr a d]"
  by (auto simp: zone_transfer_def split: sum.splits if_splits)

theorem zone_transfer_error_taxonomy_witness:
  "snd (zone_transfer example_env 167772161 ''example.test'') = Inr None
   \<and> snd (zone_transfer (example_env\<lparr>from_xfr := \<lambda>a d. Inl FormError\<rparr>) 167772161 ''example.test'')
       = Inr None
   \<and> snd (zone_transfer
            (example_env\<lparr>from_xfr := \<lambda>a d. Inl (OtherError ''ConnectionRefusedError'')\<rparr>)
            167772161 ''example.test'')
       = Inl (OtherError ''ConnectionRefusedError'')
   \<and> snd (zone_transfer (example_env\<lparr>from_xfr := \<lambda>a d. Inr [(''www'', ''www 300 IN A 10.0.0.5'')]\<rparr>)
            167772161 ''example.test'')
       = Inr (Some [(''www'', ''www 300 IN A 10.0.0.5'')])"
proof -
  let ?refused = "example_env\<lparr>from_xfr := \<lambda>a d. Inl (OtherError ''ConnectionRefusedError'')\<rparr>"
  let ?form = "example_env\<lparr>from_xfr := \<lambda>a d. Inl FormError\<rparr>"
  let ?zone = "example_env\<lparr>from_xfr := \<lambda>a d. Inr [(''www'', ''www 300 IN A 10.0.0.5'')]\<rparr>"
  have 1: "from_xfr example_env 167772161 ''example.test'' = Inl ConnectionResetError"
    by (simp add: example_env_def)
  have 2: "from_xfr ?form 167772161 ''example.test'' = Inl FormError"
    by simp
  have 3: "from_xfr ?refused 167772161 ''example.test'' = Inl (OtherError ''ConnectionRefusedError'')"
    by simp
  have 4: "from_xfr ?zone 167772161 ''example.test'' = Inr [(''www'', ''www 300 IN A 10.0.0.5'')]"
    by simp
  show ?thesis
    using zone_transfer_error_taxonomy[of example_env 167772161 "''example.test''"] 1
      zone_transfer_error_taxonomy[of ?form 167772161 "''example.test''"] 2
      zone_transfer_error_taxonomy[of ?refused 167772161 "''example.test''"] 3
      zone_transfer_error_taxonomy[of ?zone 167772161 "''example.test''"] 4
    by simp
qed

section \<open>Computations with a trace\<close>

lemma bind_io_Inl [simp]: "bind_io (t, Inl e) f = (t, Inl e)"
  by (simp add: bind_io_def)

lemma bind_io_Inr [simp]: "bind_io (t, Inr x) f = (t @ fst (f x), snd (f x))"
  by (simp add: bind_io_def split: prod.splits)

lemma bind_io_return [simp]: "bind_io (return_io x) f = f x"
  by (simp add: return_io_def)

lemma bind_io_emit [simp]: "bind_io (emit ev) f = (ev # fst (f ()), snd (f ()))"
  by (simp add: emit_def)

lemma bind_io_lift_Inl [simp]: "bind_io (lift_io (Inl e)) f = ([], Inl e)"
  by (simp add: lift_io_def)

lemma bind_io_lift_Inr [simp]: "bind_io (lift_io (Inr x)) f = f x"
  by (simp add: lift_io_def)

lemma fst_bind_io:
  "fst (bind_io m f) = fst m @ (case snd m of Inl e \<Rightarrow> [] | Inr x \<Rightarrow> fst (f x))"
  by (cases m) (auto split: sum.splits)

lemma snd_bind_io:
  "snd (bind_io m f) = (case snd m of Inl e \<Rightarrow> Inl e | Inr x \<Rightarrow> snd (f x))"
  by (cases m) (auto split: sum.splits)

section \<open>Properties of find_nearby\<close>

lemma fst_reverse_query [simp]:
  "fst (reverse_query env r i) = [Query r (from_address env i) ''PTR'']"
  by (simp add: reverse_query_def query_def)

lemma update_fresh: "k \<notin> fst ` set d \<Longrightarrow> AList.update k v d = d @ [(k, v)]"
  by (induction d) auto

lemma reversed_ips_dict_ok:
  assumes "\<forall>i\<in>set ips. \<exists>v. snd (reverse_query env r i) = Inr v"
    and "distinct ips" and "set ips \<inter> fst ` set d = {}"
  shows "reversed_ips_dict env r ips d =
           (map (\<lambda>i. Query r (from_address env i) ''PTR'') ips,
            Inr (d @ map (\<lambda>i. (i, ptr_answer env r i)) ips))"
  using assms
proof (induction ips arbitrary: d)
  case Nil
  then show ?case by (simp add: return_io_def)
next
  case (Cons i ips)
  obtain v where v: "snd (reverse_query env r i) = Inr v" using Cons.prems(1) by auto
  then have rq: "reverse_query env r i = ([Query r (from_address env i) ''PTR''], Inr v)"
    using fst_reverse_query[of env r i] by (cases "reverse_query env r i") simp
  have fresh: "i \<notin> fst ` set d" using Cons.prems(3) by auto
  have pa: "ptr_answer env r i = v" by (simp add: ptr_answer_def v)
  have "set ips \<inter> fst ` set (d @ [(i, v)]) = {}" using Cons.prems(2,3) by auto
  then have "reversed_ips_dict env r ips (d @ [(i, v)]) =
           (map (\<lambda>i. Query r (from_address env i) ''PTR'') ips,
            Inr ((d @ [(i, v)]) @ map (\<lambda>i. (i, ptr_answer env r i)) ips))"
    using Cons.IH[of "d @ [(i, v)]"] Cons.prems(1,2) by simp
  then show ?case by (simp add: rq update_fresh[OF fresh] pa)
qed

lemma reversed_ips_dict_raises:
  assumes "\<forall>i\<in>set xs. \<exists>v. snd (reverse_query env r i) = Inr v"
    and "snd (reverse_query env r a) = Inl e"
  shows "reversed_ips_dict env r (xs @ a # ys) d =
           (map (\<lambda>i. Query r (from_address env i) ''PTR'') (xs @ [a]), Inl e)"
  using assms(1)
proof (induction xs arbitrary: d)
  case Nil
  have "reverse_query env r a = ([Query r (from_address env a) ''PTR''], Inl e)"
    using fst_reverse_query[of env r a] assms(2) by (cases "reverse_query env r a") simp
  then show ?case by simp
next
  case (Cons i xs)
  obtain v where v: "snd (reverse_query env r i) = Inr v" using Cons.prems(1) by auto
  then have rq: "reverse_query env r i = ([Query r (from_address env i) ''PTR''], Inr v)"
    using fst_reverse_query[of env r i] by (cases "reverse_query env r i") simp
  show ?case using Cons by (simp add: rq)
qed

lemma filter_exn_all_ok:
  "(\<And>x. x \<in> set xs \<Longrightarrow> p x = Inr (q x)) \<Longrightarrow> filter_exn p xs = Inr (filter q xs)"
  by (induction xs) auto

lemma set_drop_none: "set (drop_none d) = {(k, a). (k, Some a) \<in> set d}"
  by (induction d) (auto simp: drop_none_def split: option.splits)

lemma map_fst_drop_none: "distinct (map fst d) \<Longrightarrow> distinct (map fst (drop_none d))"
proof (induction d)
  case Nil
  then show ?case by (simp add: drop_none_def)
next
  case (Cons x d)
  have dn: "drop_none (x # d) = (case snd x of None \<Rightarrow> [] | Some a \<Rightarrow> [(fst x, a)]) @ drop_none d"
    by (cases x) (auto simp: drop_none_def split: option.splits)
  have "fst ` set (drop_none d) \<subseteq> fst ` set d"
    by (force simp: set_drop_none)
  then have "fst x \<notin> fst ` set (drop_none d)"
    using Cons.prems by auto
  then show ?case using Cons by (auto simp: dn split: option.splits)
qed

lemma find_nearby_run:
  assumes "reversed_ips_dict env r ips [] = (qs, Inr d)"
    and "(case ff of None \<Rightarrow> Inr (drop_none d)
          | Some f \<Rightarrow> filter_exn (\<lambda>(k, v). bind_exn (item0 v) (\<lambda>r. Inr (f (to_text r)))) (drop_none d))
         = Inr flt"
    and "map_exn (\<lambda>(k, v). bind_exn (item0 v) (\<lambda>r. Inr (k, to_text r))) flt = Inr out"
  shows "find_nearby env r ips ff =
           (Call_find_nearby ips ff # qs @ (if flt = [] then [] else [Print_Nearby, Pprint_Nearby out]),
            Inr ())"
proof (cases ff)
  case None
  then show ?thesis
    using assms by (simp add: find_nearby_def return_io_def emit_def lift_io_def)
next
  case (Some f)
  then show ?thesis
    using assms by (simp add: find_nearby_def return_io_def emit_def lift_io_def)
qed

lemma find_nearby_ok:
  assumes dist: "distinct ips"
    and ans: "\<forall>i\<in>set ips. snd (reverse_query env r i) = Inr None
                \<or> (\<exists>rd rest. snd (reverse_query env r i) = Inr (Some (rd # rest)))"
  shows "\<exists>out. find_nearby env r ips ff =
           (Call_find_nearby ips ff # map (\<lambda>i. Query r (from_address env i) ''PTR'') ips
              @ (if out = [] then [] else [Print_Nearby, Pprint_Nearby out]), Inr ())
         \<and> distinct (map fst out)
         \<and> (\<forall>a host. (a, host) \<in> set out \<longleftrightarrow>
               a \<in> set ips \<and> (\<exists>rd rest. snd (reverse_query env r a) = Inr (Some (rd # rest))
                   \<and> host = to_text rd \<and> accepts ff host))"
proof -
  let ?qs = "map (\<lambda>i. Query r (from_address env i) ''PTR'') ips"
  let ?d = "map (\<lambda>i. (i, ptr_answer env r i)) ips"
  let ?res = "drop_none ?d"
  let ?keep = "\<lambda>(k :: int, v :: answer). accepts ff (to_text (hd v))"
  let ?flt = "filter ?keep ?res"
  let ?out = "map (\<lambda>(k, v). (k, to_text (hd v))) ?flt"
  have ok: "\<forall>i\<in>set ips. \<exists>v. snd (reverse_query env r i) = Inr v"
    using ans by auto
  have dict: "reversed_ips_dict env r ips [] = (?qs, Inr ?d)"
    using reversed_ips_dict_ok[OF ok dist, of "[]"] by simp
  have nonempty: "v \<noteq> []" if "(k, v) \<in> set ?res" for k v
  proof -
    from that have k: "k \<in> set ips" and pa: "ptr_answer env r k = Some v"
      by (auto simp: set_drop_none)
    from ans k pa show ?thesis by (auto simp: ptr_answer_def)
  qed
  have item: "item0 v = Inr (hd v)" if "(k, v) \<in> set ?res" for k v
    using nonempty[OF that] by (cases v) (simp_all add: item0_def)
  have stage2: "(case ff of None \<Rightarrow> Inr ?res
        | Some f \<Rightarrow> filter_exn (\<lambda>(k, v). bind_exn (item0 v) (\<lambda>r. Inr (f (to_text r)))) ?res)
       = Inr ?flt"
  proof (cases ff)
    case None
    then show ?thesis by (simp add: accepts_def)
  next
    case (Some f)
    have "filter_exn (\<lambda>(k, v). bind_exn (item0 v) (\<lambda>r. Inr (f (to_text r)))) ?res
            = Inr (filter (\<lambda>(k, v). f (to_text (hd v))) ?res)"
      by (rule filter_exn_all_ok) (auto simp: item bind_exn_def)
    then show ?thesis using Some by (simp add: accepts_def)
  qed
  have stage3: "map_exn (\<lambda>(k, v). bind_exn (item0 v) (\<lambda>r. Inr (k, to_text r))) ?flt = Inr ?out"
    by (rule map_exn_all_ok) (auto simp: item bind_exn_def)
  have empty_iff: "?out = [] \<longleftrightarrow> ?flt = []" by simp
  have run: "find_nearby env r ips ff =
           (Call_find_nearby ips ff # ?qs @ (if ?out = [] then [] else [Print_Nearby, Pprint_Nearby ?out]), Inr ())"
    unfolding empty_iff using dict stage2 stage3 by (rule find_nearby_run)
  have dd: "distinct (map fst ?d)" using dist by (simp add: comp_def)
  have "distinct (map fst ?res)" using dd by (rule map_fst_drop_none)
  then have d_flt: "distinct (map fst ?flt)" by (rule distinct_map_filter)
  have eqm: "map fst ?out = map fst ?flt" by (simp add: comp_def case_prod_unfold)
  have d_out: "distinct (map fst ?out)" unfolding eqm by (rule d_flt)
  have mem: "(a, host) \<in> set ?out \<longleftrightarrow>
               a \<in> set ips \<and> (\<exists>rd rest. snd (reverse_query env r a) = Inr (Some (rd # rest))
                   \<and> host = to_text rd \<and> accepts ff host)" for a host
  proof
    assume "(a, host) \<in> set ?out"
    then obtain v where v: "(a, v) \<in> set ?res" "accepts ff (to_text (hd v))" "host = to_text (hd v)"
      by auto
    then have a: "a \<in> set ips" and pa: "ptr_answer env r a = Some v"
      by (auto simp: set_drop_none)
    from ans a pa obtain rd rest where "snd (reverse_query env r a) = Inr (Some (rd # rest))" "v = rd # rest"
      by (auto simp: ptr_answer_def)
    then show "a \<in> set ips \<and> (\<exists>rd rest. snd (reverse_query env r a) = Inr (Some (rd # rest))
                   \<and> host = to_text rd \<and> accepts ff host)"
      using a v by auto
  next
    assume "a \<in> set ips \<and> (\<exists>rd rest. snd (reverse_query env r a) = Inr (Some (rd # rest))
                   \<and> host = to_text rd \<and> accepts ff host)"
    then obtain rd rest where a: "a \<in> set ips" and q: "snd (reverse_query env r a) = Inr (Some (rd # rest))"
      and t: "host = to_text rd" "accepts ff host" by auto
    have "ptr_answer env r a = Some (rd # rest)" using q by (simp add: ptr_answer_def)
    then have "(a, rd # rest) \<in> set ?res" using a by (auto simp: set_drop_none)
    then have "(a, rd # rest) \<in> set ?flt" using t by simp
    then have "(\<lambda>(k, v). (k, to_text (hd v))) (a, rd # rest) \<in> (\<lambda>(k, v). (k, to_text (hd v))) ` set ?flt"
      by (rule imageI)
    then show "(a, host) \<in> set ?out" using t by simp
  qed
  show ?thesis
    apply (rule exI[of _ ?out])
    using run d_out mem by blast
qed

lemma reversed_ips_dict_events:
  "ev \<in> set (fst (reversed_ips_dict env r ips d)) \<Longrightarrow> nearby_event ev"
proof (induction ips arbitrary: d)
  case Nil
  then show ?case by (simp add: return_io_def)
next
  case (Cons i ips)
  then show ?case
    by (auto simp: fst_bind_io nearby_event_def split: sum.splits)
qed

lemma find_nearby_trace:
  "\<exists>rest. fst (find_nearby env r ips ff) = Call_find_nearby ips ff # rest
          \<and> (\<forall>ev\<in>set rest. nearby_event ev)"
  unfolding find_nearby_def
  apply (simp add: fst_bind_io)
  apply (cases ff)
  using reversed_ips_dict_events[of _ env r ips "[]"]
   apply (auto simp: return_io_def lift_io_def emit_def nearby_event_def split: sum.splits)
  done

lemma nearby_batches_none: "\<forall>ev\<in>set t. nearby_event ev \<Longrightarrow> nearby_batches t = []"
  by (induction t rule: nearby_batches.induct) (auto simp: nearby_event_def)

lemma found_ips_none: "\<forall>ev\<in>set t. nearby_event ev \<Longrightarrow> found_ips t = []"
  by (induction t rule: found_ips.induct) (auto simp: nearby_event_def)

lemma nearby_batches_append: "nearby_batches (s @ t) = nearby_batches s @ nearby_batches t"
  by (induction s rule: nearby_batches.induct) auto

lemma found_ips_append: "found_ips (s @ t) = found_ips s @ found_ips t"
  by (induction s rule: found_ips.induct) auto

lemma nearby_batches_find_nearby: "nearby_batches (fst (find_nearby env r ips ff)) = [ips]"
  using find_nearby_trace[of env r ips ff] by (auto simp: nearby_batches_none)

lemma found_ips_find_nearby: "found_ips (fst (find_nearby env r ips ff)) = []"
  using find_nearby_trace[of env r ips ff] by (auto simp: found_ips_none)

lemma snd_query_None:
  "snd (query env r n t) = Inr None \<longleftrightarrow> resolver_query env r n t = Inl NXDOMAIN"
  by (auto simp: query_def split: sum.splits)

lemma snd_query_Inl:
  "snd (query env r n t) = Inl e \<longleftrightarrow> resolver_query env r n t = Inl e \<and> e \<noteq> NXDOMAIN"
  by (auto simp: query_def split: sum.splits)

lemma snd_query_Some:
  "snd (query env r n t) = Inr (Some ans) \<longleftrightarrow> resolver_query env r n t = Inr ans"
  by (auto simp: query_def split: sum.splits)

text \<open>
  C9.  Let the batch have no repetition and let every PTR lookup of the batch either
  find no name or return an answer with at least one rdata.  Then \<open>find_nearby\<close> raises
  nothing, queries every address, and the mapping \<open>out\<close> it arrives at holds exactly the
  pairs of an address of the batch that has a PTR record and the text of the first rdata
  of its answer, restricted to the hostnames the filter accepts; each address is a key at
  most once.  Without a filter every hostname is accepted; the filter built from the
  substrings \<open>subs\<close> accepts a hostname exactly when one of them occurs in it as a
  contiguous substring, characters compared as they are.  When \<open>out\<close> is empty, nothing is
  printed: the trace ends with the last query and the result is the normal return.
\<close>

theorem find_nearby_postcondition:
  assumes "distinct ips"
    and "\<forall>i\<in>set ips. snd (reverse_query env r i) = Inr None
           \<or> (\<exists>rd rest. snd (reverse_query env r i) = Inr (Some (rd # rest)))"
  shows "(\<exists>out. find_nearby env r ips ff =
             (Call_find_nearby ips ff # map (\<lambda>i. Query r (from_address env i) ''PTR'') ips
                @ (if out = [] then [] else [Print_Nearby, Pprint_Nearby out]), Inr ())
           \<and> distinct (map fst out)
           \<and> (\<forall>a host. (a, host) \<in> set out \<longleftrightarrow>
                 a \<in> set ips \<and> (\<exists>rd rest. snd (reverse_query env r a) = Inr (Some (rd # rest))
                     \<and> host = to_text rd \<and> accepts ff host)))
         \<and> (\<forall>host. accepts None host)
         \<and> (\<forall>subs host. accepts (Some (search_filter subs)) host
                \<longleftrightarrow> (\<exists>s \<in> set subs. \<exists>ps ss. host = ps @ s @ ss))"
proof -
  have a: "\<forall>host. accepts None host" by (simp add: accepts_def)
  have b: "\<forall>subs host. accepts (Some (search_filter subs)) host
                \<longleftrightarrow> (\<exists>s \<in> set subs. \<exists>ps ss. host = ps @ s @ ss)"
    by (simp add: accepts_def search_filter_def list_ex_iff sublist_def)
  show ?thesis
    using find_nearby_ok[OF assms, of ff] a b by blast
qed

theorem find_nearby_postcondition_witness:
  "find_nearby example_env None [167772163, 167772164, 167772165, 167772167]
       (Some (search_filter [''example''])) =
     ([Call_find_nearby [167772163, 167772164, 167772165, 167772167] (Some (search_filter [''example''])),
       Query None ''3.0.0.10.in-addr.arpa.'' ''PTR'',
       Query None ''4.0.0.10.in-addr.arpa.'' ''PTR'',
       Query None ''5.0.0.10.in-addr.arpa.'' ''PTR'',
       Query None ''7.0.0.10.in-addr.arpa.'' ''PTR'',
       Print_Nearby,
       Pprint_Nearby [(167772163, ''db.example.test.''), (167772165, ''www.example.test.'')]], Inr ())
   \<and> accepts (Some (search_filter [''example''])) ''www.example.test.''
   \<and> \<not> accepts (Some (search_filter [''example''])) ''Backup.Example.TEST.''
   \<and> find_nearby example_env None [167772164, 167772166] None =
     ([Call_find_nearby [167772164, 167772166] None,
       Query None ''4.0.0.10.in-addr.arpa.'' ''PTR'',
       Query None ''6.0.0.10.in-addr.arpa.'' ''PTR''], Inr ())"
proof -
  let ?ips = "[167772163, 167772164, 167772165, 167772167] :: int list"
  let ?ff = "Some (search_filter [''example''])"
  have d: "distinct ?ips" by simp
  have h: "\<forall>i\<in>set ?ips. snd (reverse_query example_env None i) = Inr None
           \<or> (\<exists>rd rest. snd (reverse_query example_env None i) = Inr (Some (rd # rest)))"
    by (simp add: run_defs example_defs)
  from find_nearby_postcondition[OF d h, of ?ff]
  obtain out where run: "find_nearby example_env None ?ips ?ff =
             (Call_find_nearby ?ips ?ff # map (\<lambda>i. Query None (from_address example_env i) ''PTR'') ?ips
                @ (if out = [] then [] else [Print_Nearby, Pprint_Nearby out]), Inr ())"
    and mem: "\<forall>a host. (a, host) \<in> set out \<longleftrightarrow>
                 a \<in> set ?ips \<and> (\<exists>rd rest. snd (reverse_query example_env None a) = Inr (Some (rd # rest))
                     \<and> host = to_text rd \<and> accepts ?ff host)"
    by blast
  have acc: "accepts ?ff ''www.example.test.''"
    by (simp add: accepts_def search_filter_def sublist_code(3))
  have "snd (reverse_query example_env None 167772165) = Inr (Some [ptr_rdata ''www.example.test.''])"
    by (simp add: run_defs example_defs)
  then have "(167772165, ''www.example.test.'') \<in> set out"
    using mem acc by (auto simp: ptr_rdata_def)
  then have ne: "out \<noteq> []" by auto
  have e1: "find_nearby example_env None ?ips ?ff =
     ([Call_find_nearby ?ips ?ff,
       Query None ''3.0.0.10.in-addr.arpa.'' ''PTR'',
       Query None ''4.0.0.10.in-addr.arpa.'' ''PTR'',
       Query None ''5.0.0.10.in-addr.arpa.'' ''PTR'',
       Query None ''7.0.0.10.in-addr.arpa.'' ''PTR'',
       Print_Nearby,
       Pprint_Nearby [(167772163, ''db.example.test.''), (167772165, ''www.example.test.'')]], Inr ())"
    using run ne by (simp add: run_defs example_defs sublist_code(3))
  have nacc: "\<not> accepts ?ff ''Backup.Example.TEST.''"
    by (simp add: accepts_def search_filter_def sublist_code(3))
  have e2: "find_nearby example_env None [167772164, 167772166] None =
     ([Call_find_nearby [167772164, 167772166] None,
       Query None ''4.0.0.10.in-addr.arpa.'' ''PTR'',
       Query None ''6.0.0.10.in-addr.arpa.'' ''PTR''], Inr ())"
    by (simp add: run_defs example_defs)
  show ?thesis using e1 acc nacc e2 by simp
qed

text \<open>
  C6.  The claim as stated fails: in \<open>flaky_env\<close> the lookup of the second address of the
  batch times out, \<open>find_nearby\<close> ends with that exception after two queries, nothing is
  emitted and the third address is never queried.
\<close>

theorem find_nearby_lookup_failure_counterexample:
  "distinct [167772165, 167772166, 167772167 :: int]
   \<and> resolver_query flaky_env None (from_address flaky_env 167772166) ''PTR'' = Inl (OtherError ''Timeout'')
   \<and> find_nearby flaky_env None [167772165, 167772166, 167772167] None =
       ([Call_find_nearby [167772165, 167772166, 167772167] None,
         Query None (from_address flaky_env 167772165) ''PTR'',
         Query None (from_address flaky_env 167772166) ''PTR''], Inl (OtherError ''Timeout''))
   \<and> Query None (from_address flaky_env 167772167) ''PTR''
        \<notin> set (fst (find_nearby flaky_env None [167772165, 167772166, 167772167] None))"
  by (simp add: run_defs example_defs)

text \<open>
  C6, amended.  For a batch without repetition: if every lookup either finds no name
  (\<^verbatim>\<open>NXDOMAIN\<close>) or returns an answer with an rdata, then \<open>find_nearby\<close> queries each
  address of the batch exactly once, in order, returns normally, and no address whose
  lookup found no name is in the emitted mapping; a missing name aborts nothing.  If,
  after lookups that returned or found no name, the lookup of an address raises any other
  error, \<open>find_nearby\<close> ends with that error right after that query: the addresses behind
  it are not queried and nothing is emitted.
\<close>

theorem find_nearby_isolates_absence:
  assumes "distinct ips"
  shows "((\<forall>i\<in>set ips. resolver_query env r (from_address env i) ''PTR'' = Inl NXDOMAIN
              \<or> (\<exists>rd rest. resolver_query env r (from_address env i) ''PTR'' = Inr (rd # rest)))
          \<longrightarrow> (\<exists>out. find_nearby env r ips ff =
                 (Call_find_nearby ips ff # map (\<lambda>i. Query r (from_address env i) ''PTR'') ips
                    @ (if out = [] then [] else [Print_Nearby, Pprint_Nearby out]), Inr ())
               \<and> (\<forall>a host. (a, host) \<in> set out \<longrightarrow>
                     a \<in> set ips \<and> resolver_query env r (from_address env a) ''PTR'' \<noteq> Inl NXDOMAIN)))
       \<and> (\<forall>xs a ys e. ips = xs @ a # ys
              \<and> (\<forall>i\<in>set xs. resolver_query env r (from_address env i) ''PTR'' = Inl NXDOMAIN
                    \<or> (\<exists>ans. resolver_query env r (from_address env i) ''PTR'' = Inr ans))
              \<and> resolver_query env r (from_address env a) ''PTR'' = Inl e \<and> e \<noteq> NXDOMAIN
            \<longrightarrow> find_nearby env r ips ff =
                 (Call_find_nearby ips ff # map (\<lambda>i. Query r (from_address env i) ''PTR'') (xs @ [a]),
                  Inl e))"
proof (intro conjI impI allI)
  assume h: "\<forall>i\<in>set ips. resolver_query env r (from_address env i) ''PTR'' = Inl NXDOMAIN
              \<or> (\<exists>rd rest. resolver_query env r (from_address env i) ''PTR'' = Inr (rd # rest))"
  then have h': "\<forall>i\<in>set ips. snd (reverse_query env r i) = Inr None
           \<or> (\<exists>rd rest. snd (reverse_query env r i) = Inr (Some (rd # rest)))"
    by (simp add: reverse_query_def snd_query_None snd_query_Some)
  from find_nearby_ok[OF assms h', of ff]
  obtain out where run: "find_nearby env r ips ff =
           (Call_find_nearby ips ff # map (\<lambda>i. Query r (from_address env i) ''PTR'') ips
              @ (if out = [] then [] else [Print_Nearby, Pprint_Nearby out]), Inr ())"
    and mem: "\<forall>a host. (a, host) \<in> set out \<longleftrightarrow>
               a \<in> set ips \<and> (\<exists>rd rest. snd (reverse_query env r a) = Inr (Some (rd # rest))
                   \<and> host = to_text rd \<and> accepts ff host)"
    by blast
  have "\<forall>a host. (a, host) \<in> set out \<longrightarrow>
          a \<in> set ips \<and> resolver_query env r (from_address env a) ''PTR'' \<noteq> Inl NXDOMAIN"
    using mem by (auto simp: reverse_query_def snd_query_Some)
  with run show "\<exists>out. find_nearby env r ips ff =
                 (Call_find_nearby ips ff # map (\<lambda>i. Query r (from_address env i) ''PTR'') ips
                    @ (if out = [] then [] else [Print_Nearby, Pprint_Nearby out]), Inr ())
               \<and> (\<forall>a host. (a, host) \<in> set out \<longrightarrow>
                     a \<in> set ips \<and> resolver_query env r (from_address env a) ''PTR'' \<noteq> Inl NXDOMAIN)"
    by blast
next
  fix xs a ys e
  assume h: "ips = xs @ a # ys
              \<and> (\<forall>i\<in>set xs. resolver_query env r (from_address env i) ''PTR'' = Inl NXDOMAIN
                    \<or> (\<exists>ans. resolver_query env r (from_address env i) ''PTR'' = Inr ans))
              \<and> resolver_query env r (from_address env a) ''PTR'' = Inl e \<and> e \<noteq> NXDOMAIN"
  then have ok: "\<forall>i\<in>set xs. \<exists>v. snd (reverse_query env r i) = Inr v"
    by (auto simp: reverse_query_def query_def)
  have bad: "snd (reverse_query env r a) = Inl e"
    using h by (simp add: reverse_query_def snd_query_Inl)
  have "reversed_ips_dict env r ips [] =
           (map (\<lambda>i. Query r (from_address env i) ''PTR'') (xs @ [a]), Inl e)"
    using reversed_ips_dict_raises[OF ok bad, of ys "[]"] h by simp
  then show "find_nearby env r ips ff =
                 (Call_find_nearby ips ff # map (\<lambda>i. Query r (from_address env i) ''PTR'') (xs @ [a]),
                  Inl e)"
    by (simp add: find_nearby_def emit_def)
qed

theorem find_nearby_isolates_absence_witness:
  "find_nearby example_env None [167772164, 167772165, 167772166] None =
     ([Call_find_nearby [167772164, 167772165, 167772166] None,
       Query None ''4.0.0.10.in-addr.arpa.'' ''PTR'',
       Query None ''5.0.0.10.in-addr.arpa.'' ''PTR'',
       Query None ''6.0.0.10.in-addr.arpa.'' ''PTR'',
       Print_Nearby,
       Pprint_Nearby [(167772165, ''www.example.test.'')]], Inr ())
   \<and> find_nearby flaky_env None [167772165, 167772166, 167772167] None =
       ([Call_find_nearby [167772165, 167772166, 167772167] None,
         Query None ''5.0.0.10.in-addr.arpa.'' ''PTR'',
         Query None ''6.0.0.10.in-addr.arpa.'' ''PTR''], Inl (OtherError ''Timeout''))"
proof -
  let ?ips = "[167772165, 167772166, 167772167] :: int list"
  have d: "distinct ?ips" by simp
  have pre: "?ips = [167772165] @ 167772166 # [167772167]
      \<and> (\<forall>i\<in>set [167772165 :: int]. resolver_query flaky_env None (from_address flaky_env i) ''PTR'' = Inl NXDOMAIN
            \<or> (\<exists>ans. resolver_query flaky_env None (from_address flaky_env i) ''PTR'' = Inr ans))
      \<and> resolver_query flaky_env None (from_address flaky_env 167772166) ''PTR'' = Inl (OtherError ''Timeout'')
      \<and> OtherError ''Timeout'' \<noteq> NXDOMAIN"
    by (simp add: example_defs)
  from find_nearby_isolates_absence[OF d, of flaky_env None None] pre
  have "find_nearby flaky_env None ?ips None =
          (Call_find_nearby ?ips None
             # map (\<lambda>i. Query None (from_address flaky_env i) ''PTR'') ([167772165] @ [167772166]),
           Inl (OtherError ''Timeout''))"
    by blast
  then have e2: "find_nearby flaky_env None ?ips None =
       ([Call_find_nearby ?ips None,
         Query None ''5.0.0.10.in-addr.arpa.'' ''PTR'',
         Query None ''6.0.0.10.in-addr.arpa.'' ''PTR''], Inl (OtherError ''Timeout''))"
    by (simp add: example_defs)
  let ?jps = "[167772164, 167772165, 167772166] :: int list"
  have dj: "distinct ?jps" by simp
  have hj: "\<forall>i\<in>set ?jps. resolver_query example_env None (from_address example_env i) ''PTR'' = Inl NXDOMAIN
              \<or> (\<exists>rd rest. resolver_query example_env None (from_address example_env i) ''PTR''
                    = Inr (rd # rest))"
    by (simp add: example_defs)
  from find_nearby_isolates_absence[OF dj, of example_env None None] hj
  obtain out where "find_nearby example_env None ?jps None =
                 (Call_find_nearby ?jps None
                    # map (\<lambda>i. Query None (from_address example_env i) ''PTR'') ?jps
                    @ (if out = [] then [] else [Print_Nearby, Pprint_Nearby out]), Inr ())"
    by blast
  then have e1: "find_nearby example_env None ?jps None =
     ([Call_find_nearby ?jps None,
       Query None ''4.0.0.10.in-addr.arpa.'' ''PTR'',
       Query None ''5.0.0.10.in-addr.arpa.'' ''PTR'',
       Query None ''6.0.0.10.in-addr.arpa.'' ''PTR'',
       Print_Nearby,
       Pprint_Nearby [(167772165, ''www.example.test.'')]], Inr ())"
    by (simp add: run_defs example_defs)
  show ?thesis using e1 e2 by simp
qed

section \<open>Properties of the pipeline\<close>

lemma nearby_event_loop: "nearby_event ev \<Longrightarrow> loop_event kwargs ev"
  by (cases ev) (auto simp: nearby_event_def loop_event_def)

lemma find_nearby_loop_events:
  assumes "ev \<in> set (fst (find_nearby env r ips (search_filter_func kwargs)))"
  shows "loop_event kwargs ev"
proof -
  obtain rest where 1: "fst (find_nearby env r ips (search_filter_func kwargs))
      = Call_find_nearby ips (search_filter_func kwargs) # rest"
    and 2: "\<forall>ev\<in>set rest. nearby_event ev"
    using find_nearby_trace by blast
  from assms 1 have "ev = Call_find_nearby ips (search_filter_func kwargs) \<or> ev \<in> set rest"
    by simp
  then show ?thesis
  proof
    assume "ev = Call_find_nearby ips (search_filter_func kwargs)"
    then show ?thesis by (simp add: loop_event_def)
  next
    assume "ev \<in> set rest"
    then show ?thesis using 2 nearby_event_loop by blast
  qed
qed

lemma visit_nearby_events:
  "ev \<in> set (fst (visit_nearby env kwargs r ips visited)) \<Longrightarrow> loop_event kwargs ev"
  unfolding visit_nearby_def Let_def
  by (auto simp: fst_bind_io return_io_def lift_io_def emit_def find_nearby_loop_events
      loop_event_def[of kwargs "Sleep _"]
      split: sum.splits option.splits if_splits)

lemma loop_body_events:
  "ev \<in> set (fst (loop_body env kwargs r d sub visited)) \<Longrightarrow> loop_event kwargs ev"
  unfolding loop_body_def Let_def
  by (auto simp: fst_bind_io return_io_def lift_io_def emit_def query_def visit_nearby_events
      loop_event_def[of kwargs "Query _ _ _"] loop_event_def[of kwargs "Print_Found _ _"]
      split: sum.splits option.splits if_splits)

lemma subdomain_loop_events:
  "ev \<in> set (fst (subdomain_loop env kwargs r d subs visited)) \<Longrightarrow> loop_event kwargs ev"
proof (induction subs arbitrary: visited)
  case Nil
  then show ?case by (simp add: return_io_def)
next
  case (Cons sub subs)
  then show ?case
    by (auto simp: fst_bind_io loop_body_events split: sum.splits)
qed

lemma setup_nameservers_events:
  "ev \<in> set (fst (setup_nameservers env kwargs)) \<Longrightarrow> \<exists>p. ev = Readlines p"
  unfolding setup_nameservers_def
  by (auto simp: fst_bind_io return_io_def split: sum.splits option.splits list.splits if_splits)

lemma range_scan_events:
  "ev \<in> set (fst (range_scan env kwargs r)) \<Longrightarrow> (\<exists>ips. ev = Call_find_nearby ips None) \<or> nearby_event ev"
proof -
  assume a: "ev \<in> set (fst (range_scan env kwargs r))"
  show ?thesis
  proof (cases "range_cidr kwargs")
    case None
    then show ?thesis using a by (simp add: range_scan_def return_io_def)
  next
    case (Some ap)
    obtain a' p where ap: "ap = (a', p)" by (cases ap)
    show ?thesis
    proof (cases "bind_exn (IPv4Address a') (\<lambda>a'. IPv4Network (V4 a') p)")
      case (Inl e)
      then show ?thesis using a Some ap by (simp add: range_scan_def)
    next
      case (Inr net)
      then have "ev \<in> set (fst (find_nearby env r (list_network net) None))"
        using a Some ap by (simp add: range_scan_def)
      then show ?thesis using find_nearby_trace[of env r "list_network net" None] by auto
    qed
  qed
qed

lemma brute_force_events:
  "ev \<in> set (fst (brute_force env kwargs r d)) \<Longrightarrow>
     loop_event kwargs ev \<or> (\<exists>b. ev = Print_Wildcard b) \<or> (\<exists>p. ev = Readlines p)"
  unfolding brute_force_def
  by (auto simp: fst_bind_io return_io_def emit_def query_def
      loop_event_def[of kwargs "Query _ _ _"]
      simp del: subdomain_loop.simps
      dest: subdomain_loop_events
      split: sum.splits option.splits list.splits if_splits)

lemma fierce_run:
  "fierce env kwargs =
     (case setup_nameservers env kwargs of
        (t0, Inl e) \<Rightarrow> (t0, Inl e)
      | (t0, Inr r) \<Rightarrow>
          (case range_scan env kwargs r of
             (t1, Inl e) \<Rightarrow> (t0 @ t1, Inl e)
           | (t1, Inr u) \<Rightarrow>
               (case domain kwargs of
                  None \<Rightarrow> (t0 @ t1, Inr ())
                | Some [] \<Rightarrow> (t0 @ t1, Inr ())
                | Some (c # cs) \<Rightarrow>
                    (t0 @ t1 @ fst (domain_scan env kwargs r (c # cs)),
                     snd (domain_scan env kwargs r (c # cs))))))"
  by (simp add: fierce_def return_io_def split: prod.splits sum.splits option.splits list.splits)

lemma domain_scan_run:
  "domain_scan env kwargs r d =
     (case resolver_query env r d ''NS'' of
        Inl e \<Rightarrow> ([Query r d ''NS''], Inl (if e = NXDOMAIN then TypeError else e))
      | Inr ns \<Rightarrow>
          (let t3 = [Query r d ''NS'', Print_NS (map to_text ns), Query r d ''SOA''] in
           case resolver_query env r d ''SOA'' of
             Inl e \<Rightarrow> (t3, Inl (if e = NXDOMAIN then TypeError else e))
           | Inr soa \<Rightarrow>
               (case bind_exn (item0 soa) (\<lambda>rd. getattr (mname rd)) of
                  Inl e \<Rightarrow> (t3, Inl e)
                | Inr m \<Rightarrow>
                    (case resolver_query env r m ''A'' of
                       Inl e \<Rightarrow> (t3 @ [Query r m ''A''], Inl (if e = NXDOMAIN then TypeError else e))
                     | Inr master \<Rightarrow>
                         (case bind_exn (item0 master) (\<lambda>rd. getattr (address rd)) of
                            Inl e \<Rightarrow> (t3 @ [Query r m ''A''], Inl e)
                          | Inr a \<Rightarrow>
                              (let t6 = t3 @ [Query r m ''A'', Print_SOA m a, Xfr a d] in
                               case from_xfr env a d of
                                 Inr z \<Rightarrow> (t6 @ [Print_Zone True, Pprint_Zone z], Inr ())
                               | Inl e \<Rightarrow>
                                   if e = ConnectionResetError \<or> e = FormError
                                   then (t6 @ Print_Zone False # fst (brute_force env kwargs r d),
                                         snd (brute_force env kwargs r d))
                                   else (t6, Inl e)))))))"
  unfolding domain_scan_def
  by (simp add: query_def zone_transfer_def subscript0_def emit_def lift_io_def bind_exn_def Let_def
      split: sum.splits)

lemma domain_stage_reached:
  assumes su: "setup_nameservers env kwargs = (t0, Inr r)"
    and dom: "domain kwargs = Some d"
    and ev: "ev \<in> set (fst (fierce env kwargs))"
    and n1: "\<forall>p. ev \<noteq> Readlines p"
    and n2: "\<forall>ips. ev \<noteq> Call_find_nearby ips None"
    and n3: "\<not> nearby_event ev"
  shows "\<exists>t1. range_scan env kwargs r = (t1, Inr ()) \<and> d \<noteq> []
           \<and> fierce env kwargs =
               (t0 @ t1 @ fst (domain_scan env kwargs r d), snd (domain_scan env kwargs r d))
           \<and> ev \<in> set (fst (domain_scan env kwargs r d))"
proof -
  obtain t1 res where rs: "range_scan env kwargs r = (t1, res)"
    by (cases "range_scan env kwargs r")
  have not0: "ev \<notin> set t0"
    using setup_nameservers_events[of ev env kwargs] su n1 by auto
  have not1: "ev \<notin> set t1"
    using range_scan_events[of ev env kwargs r] rs n2 n3 by auto
  show ?thesis
  proof (cases res)
    case (Inl e)
    then have "fst (fierce env kwargs) = t0 @ t1"
      by (simp add: fierce_run su rs)
    then show ?thesis using ev not0 not1 by simp
  next
    case (Inr u)
    show ?thesis
    proof (cases d)
      case Nil
      then have "fst (fierce env kwargs) = t0 @ t1"
        by (simp add: fierce_run su rs Inr dom)
      then show ?thesis using ev not0 not1 by simp
    next
      case (Cons c cs)
      then have run: "fierce env kwargs =
               (t0 @ t1 @ fst (domain_scan env kwargs r d), snd (domain_scan env kwargs r d))"
        by (simp add: fierce_run su rs Inr dom)
      then have "ev \<in> set (fst (domain_scan env kwargs r d))"
        using ev not0 not1 by simp
      then show ?thesis using run rs Inr Cons by simp
    qed
  qed
qed

text \<open>
  C5.  The run does not survive an absent NS answer.  In a domain-targeted run that
  reaches the NS query (the resolver is set up as \<open>r\<close>, the domain is \<open>d\<close>, and the query is
  in the trace), when the resolver answers \<^verbatim>\<open>NXDOMAIN\<close>, \<open>query\<close> returns \<open>None\<close>, the
  comprehension over it raises \<^verbatim>\<open>TypeError\<close>, and the run ends there: the NS query is the
  last event, no nameserver list is printed and the SOA stage is not reached.
\<close>

theorem ns_absent_raises_type_error:
  assumes su: "setup_nameservers env kwargs = (t0, Inr r)"
    and dom: "domain kwargs = Some d"
    and reached: "Query r d ''NS'' \<in> set (fst (fierce env kwargs))"
    and absent: "resolver_query env r d ''NS'' = Inl NXDOMAIN"
  shows "\<exists>t1. range_scan env kwargs r = (t1, Inr ())
           \<and> fierce env kwargs = (t0 @ t1 @ [Query r d ''NS''], Inl TypeError)"
proof -
  have "\<not> nearby_event (Query r d ''NS'')" by (simp add: nearby_event_def)
  with domain_stage_reached[OF su dom reached]
  obtain t1 where rs: "range_scan env kwargs r = (t1, Inr ())"
    and run: "fierce env kwargs =
               (t0 @ t1 @ fst (domain_scan env kwargs r d), snd (domain_scan env kwargs r d))"
    by auto
  have "domain_scan env kwargs r d = ([Query r d ''NS''], Inl TypeError)"
    by (simp add: domain_scan_run absent)
  then show ?thesis using rs run by simp
qed

theorem ns_absent_raises_type_error_witness:
  "resolver_query example_env None ''missing.test'' ''NS'' = Inl NXDOMAIN
   \<and> fierce example_env (example_config\<lparr>domain := Some ''missing.test''\<rparr>)
       = ([Query None ''missing.test'' ''NS''], Inl TypeError)"
proof -
  let ?cfg = "example_config\<lparr>domain := Some ''missing.test''\<rparr>"
  have su: "setup_nameservers example_env ?cfg = ([], Inr None)"
    by (simp add: pipeline_defs run_defs)
  have dom: "domain ?cfg = Some ''missing.test''" by simp
  have run: "fierce example_env ?cfg = ([Query None ''missing.test'' ''NS''], Inl TypeError)"
    by (simp add: pipeline_defs run_defs example_defs)
  have reached: "Query None ''missing.test'' ''NS'' \<in> set (fst (fierce example_env ?cfg))"
    unfolding run by simp
  have absent: "resolver_query example_env None ''missing.test'' ''NS'' = Inl NXDOMAIN"
    by (simp add: example_defs)
  from ns_absent_raises_type_error[OF su dom reached absent]
  obtain t1 where "range_scan example_env ?cfg None = (t1, Inr ())"
    and "fierce example_env ?cfg = ([] @ t1 @ [Query None ''missing.test'' ''NS''], Inl TypeError)"
    by blast
  moreover have "range_scan example_env ?cfg None = ([], Inr ())"
    by (simp add: pipeline_defs run_defs)
  ultimately have "fierce example_env ?cfg = ([Query None ''missing.test'' ''NS''], Inl TypeError)"
    by simp
  then show ?thesis using absent by simp
qed

text \<open>
  C7.  In a domain-targeted run that reaches the SOA query, when the SOA query finds no
  name, or the A query for the master name of the SOA record finds no name, the run ends
  with an uncaught \<^verbatim>\<open>TypeError\<close> right after that query: what follows the NS report in the
  trace is the SOA query, and in the second case the A query, and nothing else, so there is
  no zone transfer, no wildcard probe and no subdomain lookup.  The scan of the internal
  range has returned normally before, and its events, with the findings it printed, stand
  in the trace before the NS query.
\<close>

theorem soa_failure_is_fatal:
  assumes su: "setup_nameservers env kwargs = (t0, Inr r)"
    and dom: "domain kwargs = Some d"
    and reached: "Query r d ''SOA'' \<in> set (fst (fierce env kwargs))"
    and fail: "resolver_query env r d ''SOA'' = Inl NXDOMAIN
               \<or> (\<exists>rd rest m. resolver_query env r d ''SOA'' = Inr (rd # rest) \<and> mname rd = Some m
                     \<and> resolver_query env r m ''A'' = Inl NXDOMAIN)"
  shows "\<exists>t1 ns qs. range_scan env kwargs r = (t1, Inr ())
           \<and> resolver_query env r d ''NS'' = Inr ns
           \<and> fierce env kwargs =
               (t0 @ t1 @ [Query r d ''NS'', Print_NS (map to_text ns), Query r d ''SOA''] @ qs,
                Inl TypeError)
           \<and> (qs = [] \<or> (\<exists>m. qs = [Query r m ''A'']))"
proof -
  have "\<not> nearby_event (Query r d ''SOA'')" by (simp add: nearby_event_def)
  with domain_stage_reached[OF su dom reached]
  obtain t1 where rs: "range_scan env kwargs r = (t1, Inr ())"
    and run: "fierce env kwargs =
               (t0 @ t1 @ fst (domain_scan env kwargs r d), snd (domain_scan env kwargs r d))"
    and ev: "Query r d ''SOA'' \<in> set (fst (domain_scan env kwargs r d))"
    by auto
  obtain ns where ns: "resolver_query env r d ''NS'' = Inr ns"
    using ev by (cases "resolver_query env r d ''NS''") (auto simp: domain_scan_run)
  from fail show ?thesis
  proof
    assume "resolver_query env r d ''SOA'' = Inl NXDOMAIN"
    then have "domain_scan env kwargs r d =
        ([Query r d ''NS'', Print_NS (map to_text ns), Query r d ''SOA''] @ [], Inl TypeError)"
      by (simp add: domain_scan_run ns)
    then show ?thesis using rs ns run by (metis prod.sel)
  next
    assume "\<exists>rd rest m. resolver_query env r d ''SOA'' = Inr (rd # rest) \<and> mname rd = Some m
                     \<and> resolver_query env r m ''A'' = Inl NXDOMAIN"
    then obtain rd rest m where "resolver_query env r d ''SOA'' = Inr (rd # rest)" "mname rd = Some m"
      "resolver_query env r m ''A'' = Inl NXDOMAIN" by blast
    then have "domain_scan env kwargs r d =
        ([Query r d ''NS'', Print_NS (map to_text ns), Query r d ''SOA''] @ [Query r m ''A''],
         Inl TypeError)"
      by (simp add: domain_scan_run ns bind_exn_def item0_def getattr_def)
    then show ?thesis using rs ns run by (metis prod.sel)
  qed
qed

theorem soa_failure_is_fatal_witness:
  "fierce example_env (example_config\<lparr>domain := Some ''nosoa.test'', range_cidr := Some (167772164, 30)\<rparr>)
     = ([Call_find_nearby [167772164, 167772165, 167772166, 167772167] None,
         Query None ''4.0.0.10.in-addr.arpa.'' ''PTR'',
         Query None ''5.0.0.10.in-addr.arpa.'' ''PTR'',
         Query None ''6.0.0.10.in-addr.arpa.'' ''PTR'',
         Query None ''7.0.0.10.in-addr.arpa.'' ''PTR'',
         Print_Nearby,
         Pprint_Nearby [(167772165, ''www.example.test.''), (167772167, ''Backup.Example.TEST.'')],
         Query None ''nosoa.test'' ''NS'',
         Print_NS [''ns.nosoa.test.''],
         Query None ''nosoa.test'' ''SOA''], Inl TypeError)
   \<and> fierce example_env (example_config\<lparr>domain := Some ''nomaster.test''\<rparr>)
     = ([Query None ''nomaster.test'' ''NS'',
         Print_NS [''ns.nomaster.test.''],
         Query None ''nomaster.test'' ''SOA'',
         Query None ''gone.nomaster.test.'' ''A''], Inl TypeError)"
proof -
  let ?cfg = "example_config\<lparr>domain := Some ''nosoa.test'', range_cidr := Some (167772164, 30)\<rparr>"
  let ?cfg2 = "example_config\<lparr>domain := Some ''nomaster.test''\<rparr>"
  let ?scan = "[Call_find_nearby [167772164, 167772165, 167772166, 167772167] None,
         Query None ''4.0.0.10.in-addr.arpa.'' ''PTR'',
         Query None ''5.0.0.10.in-addr.arpa.'' ''PTR'',
         Query None ''6.0.0.10.in-addr.arpa.'' ''PTR'',
         Query None ''7.0.0.10.in-addr.arpa.'' ''PTR'',
         Print_Nearby,
         Pprint_Nearby [(167772165, ''www.example.test.''), (167772167, ''Backup.Example.TEST.'')]]"
  have su: "setup_nameservers example_env ?cfg = ([], Inr None)"
    by (simp add: pipeline_defs run_defs)
  have dom: "domain ?cfg = Some ''nosoa.test''" by simp
  have run: "fierce example_env ?cfg =
      (?scan @ [Query None ''nosoa.test'' ''NS'', Print_NS [''ns.nosoa.test.''],
                Query None ''nosoa.test'' ''SOA''], Inl TypeError)"
    by (simp add: pipeline_defs run_defs example_defs)
  have reached: "Query None ''nosoa.test'' ''SOA'' \<in> set (fst (fierce example_env ?cfg))"
    unfolding run by simp
  have fail: "resolver_query example_env None ''nosoa.test'' ''SOA'' = Inl NXDOMAIN
               \<or> (\<exists>rd rest m. resolver_query example_env None ''nosoa.test'' ''SOA'' = Inr (rd # rest)
                     \<and> mname rd = Some m \<and> resolver_query example_env None m ''A'' = Inl NXDOMAIN)"
    by (simp add: example_defs)
  have rs: "range_scan example_env ?cfg None = (?scan, Inr ())"
    by (simp add: pipeline_defs run_defs example_defs)
  have ns: "resolver_query example_env None ''nosoa.test'' ''NS'' = Inr [ptr_rdata ''ns.nosoa.test.'']"
    by (simp add: example_defs)
  from soa_failure_is_fatal[OF su dom reached fail]
  obtain t1 ns' qs where "range_scan example_env ?cfg None = (t1, Inr ())"
    and "resolver_query example_env None ''nosoa.test'' ''NS'' = Inr ns'"
    and "fierce example_env ?cfg =
          ([] @ t1 @ [Query None ''nosoa.test'' ''NS'', Print_NS (map to_text ns'),
                      Query None ''nosoa.test'' ''SOA''] @ qs, Inl TypeError)"
    by blast
  then have e1: "fierce example_env ?cfg =
      (?scan @ [Query None ''nosoa.test'' ''NS'', Print_NS [''ns.nosoa.test.''],
                Query None ''nosoa.test'' ''SOA''], Inl TypeError)"
    using rs ns run by simp
  have su2: "setup_nameservers example_env ?cfg2 = ([], Inr None)"
    by (simp add: pipeline_defs run_defs)
  have dom2: "domain ?cfg2 = Some ''nomaster.test''" by simp
  have run2: "fierce example_env ?cfg2 =
      ([Query None ''nomaster.test'' ''NS'', Print_NS [''ns.nomaster.test.''],
        Query None ''nomaster.test'' ''SOA'', Query None ''gone.nomaster.test.'' ''A''], Inl TypeError)"
    by (simp add: pipeline_defs run_defs example_defs)
  have reached2: "Query None ''nomaster.test'' ''SOA'' \<in> set (fst (fierce example_env ?cfg2))"
    unfolding run2 by simp
  have "resolver_query example_env None ''nomaster.test'' ''SOA'' = Inr (soa_rdata ''gone.nomaster.test.'' # [])
         \<and> mname (soa_rdata ''gone.nomaster.test.'') = Some ''gone.nomaster.test.''
         \<and> resolver_query example_env None ''gone.nomaster.test.'' ''A'' = Inl NXDOMAIN"
    by (simp add: example_defs)
  then have fail2: "resolver_query example_env None ''nomaster.test'' ''SOA'' = Inl NXDOMAIN
               \<or> (\<exists>rd rest m. resolver_query example_env None ''nomaster.test'' ''SOA'' = Inr (rd # rest)
                     \<and> mname rd = Some m \<and> resolver_query example_env None m ''A'' = Inl NXDOMAIN)"
    by blast
  from soa_failure_is_fatal[OF su2 dom2 reached2 fail2]
  have "\<exists>e. snd (fierce example_env ?cfg2) = Inl e" by auto
  then have e2: "fierce example_env ?cfg2 =
      ([Query None ''nomaster.test'' ''NS'', Print_NS [''ns.nomaster.test.''],
        Query None ''nomaster.test'' ''SOA'', Query None ''gone.nomaster.test.'' ''A''], Inl TypeError)"
    using run2 by simp
  show ?thesis using e1 e2 by simp
qed

lemma xfr_in_domain_scan:
  assumes "Xfr a d' \<in> set (fst (domain_scan env kwargs r d))"
  shows "\<exists>ns soa m master. d' = d \<and> resolver_query env r d ''NS'' = Inr ns
           \<and> resolver_query env r d ''SOA'' = Inr soa
           \<and> bind_exn (item0 soa) (\<lambda>rd. getattr (mname rd)) = Inr m
           \<and> resolver_query env r m ''A'' = Inr master
           \<and> bind_exn (item0 master) (\<lambda>rd. getattr (address rd)) = Inr a"
proof -
  have nb: "Xfr a d' \<notin> set (fst (brute_force env kwargs r d))"
    using brute_force_events[of "Xfr a d'" env kwargs r d] by (auto simp: loop_event_def)
  show ?thesis
    using assms nb
    by (auto simp: domain_scan_run Let_def split: sum.splits if_splits)
qed

text \<open>
  C2.  In a domain-targeted run in which the zone transfer is attempted and returns a
  zone, the trace ends with the transfer, the line \<^verbatim>\<open>Zone: success\<close> and the zone contents,
  and the run returns normally: nothing follows the report of the zone, so there is no
  wildcard probe and no lookup of a subdomain.  Before the transfer the run made only the
  NS, SOA and master-address queries (and the scan of the internal range, if any).
\<close>

theorem zone_transfer_short_circuit:
  assumes su: "setup_nameservers env kwargs = (t0, Inr r)"
    and dom: "domain kwargs = Some d"
    and reached: "Xfr a d \<in> set (fst (fierce env kwargs))"
    and ok: "from_xfr env a d = Inr z"
  shows "\<exists>t1 ns m. range_scan env kwargs r = (t1, Inr ())
           \<and> fierce env kwargs =
               (t0 @ t1 @ [Query r d ''NS'', Print_NS ns, Query r d ''SOA'', Query r m ''A'',
                           Print_SOA m a, Xfr a d, Print_Zone True, Pprint_Zone z],
                Inr ())"
proof -
  have "\<not> nearby_event (Xfr a d)" by (simp add: nearby_event_def)
  with domain_stage_reached[OF su dom reached]
  obtain t1 where rs: "range_scan env kwargs r = (t1, Inr ())"
    and run: "fierce env kwargs =
               (t0 @ t1 @ fst (domain_scan env kwargs r d), snd (domain_scan env kwargs r d))"
    and ev: "Xfr a d \<in> set (fst (domain_scan env kwargs r d))"
    by auto
  from xfr_in_domain_scan[OF ev] obtain ns soa m master where
    "resolver_query env r d ''NS'' = Inr ns" "resolver_query env r d ''SOA'' = Inr soa"
    "bind_exn (item0 soa) (\<lambda>rd. getattr (mname rd)) = Inr m"
    "resolver_query env r m ''A'' = Inr master"
    "bind_exn (item0 master) (\<lambda>rd. getattr (address rd)) = Inr a"
    by blast
  then have "domain_scan env kwargs r d =
      ([Query r d ''NS'', Print_NS (map to_text ns), Query r d ''SOA'', Query r m ''A'',
        Print_SOA m a, Xfr a d, Print_Zone True, Pprint_Zone z], Inr ())"
    by (simp add: domain_scan_run ok)
  then show ?thesis using rs run by (metis prod.sel)
qed

theorem zone_transfer_short_circuit_witness:
  "fierce (example_env\<lparr>from_xfr := \<lambda>a d. Inr [(''www'', ''www 300 IN A 10.0.0.5''),
                                              (''mail'', ''mail 300 IN A 10.0.0.4'')]\<rparr>)
       example_config
     = ([Query None ''example.test'' ''NS'',
         Print_NS [''ns1.example.test.'', ''ns2.example.test.''],
         Query None ''example.test'' ''SOA'',
         Query None ''ns1.example.test.'' ''A'',
         Print_SOA ''ns1.example.test.'' 167772161,
         Xfr 167772161 ''example.test'',
         Print_Zone True,
         Pprint_Zone [(''www'', ''www 300 IN A 10.0.0.5''), (''mail'', ''mail 300 IN A 10.0.0.4'')]],
        Inr ())"
proof -
  let ?z = "[(''www'', ''www 300 IN A 10.0.0.5''), (''mail'', ''mail 300 IN A 10.0.0.4'')]"
  let ?env = "example_env\<lparr>from_xfr := \<lambda>a d. Inr ?z\<rparr>"
  have su: "setup_nameservers ?env example_config = ([], Inr None)"
    by (simp add: pipeline_defs run_defs)
  have dom: "domain example_config = Some ''example.test''"
    by (simp add: example_config_def)
  have run: "fierce ?env example_config
     = ([Query None ''example.test'' ''NS'',
         Print_NS [''ns1.example.test.'', ''ns2.example.test.''],
         Query None ''example.test'' ''SOA'',
         Query None ''ns1.example.test.'' ''A'',
         Print_SOA ''ns1.example.test.'' 167772161,
         Xfr 167772161 ''example.test'',
         Print_Zone True,
         Pprint_Zone ?z], Inr ())"
    by (simp add: pipeline_defs run_defs example_defs)
  have reached: "Xfr 167772161 ''example.test'' \<in> set (fst (fierce ?env example_config))"
    unfolding run by simp
  have ok: "from_xfr ?env 167772161 ''example.test'' = Inr ?z" by simp
  from zone_transfer_short_circuit[OF su dom reached ok]
  have "snd (fierce ?env example_config) = Inr ()" by auto
  then show ?thesis using run by simp
qed

lemma call_in_domain_scan:
  assumes "Call_find_nearby ips ff \<in> set (fst (domain_scan env kwargs r d))"
  shows "ff = search_filter_func kwargs"
proof -
  have nb: "Call_find_nearby ips ff \<in> set (fst (brute_force env kwargs r d))
              \<Longrightarrow> ff = search_filter_func kwargs"
    using brute_force_events[of "Call_find_nearby ips ff" env kwargs r d]
    by (auto simp: loop_event_def)
  show ?thesis
    using assms nb
    by (auto simp: domain_scan_run Let_def split: sum.splits if_splits)
qed

text \<open>
  C10.  With an internal range (a valid network \<open>net\<close>) and a non-empty list of search
  substrings configured, the trace of the run is the events of reading the nameserver
  file, then the call of \<open>find_nearby\<close> on all addresses of the range with no filter and
  the events of that call, then the rest \<open>t2\<close> of the run; and every call of \<open>find_nearby\<close>
  in \<open>t2\<close>, that is every batch triggered by a subdomain hit, carries the filter built
  from the configured substrings.
\<close>

theorem range_scan_is_unfiltered:
  assumes su: "setup_nameservers env kwargs = (t0, Inr r)"
    and rng: "range_cidr kwargs = Some (a, p)"
    and net: "bind_exn (IPv4Address a) (\<lambda>a'. IPv4Network (V4 a') p) = Inr net"
    and srch: "search kwargs = Some (s # ss)"
  shows "\<exists>rest t2.
           fst (fierce env kwargs) = t0 @ Call_find_nearby (list_network net) None # rest @ t2
         \<and> Call_find_nearby (list_network net) None # rest
             = fst (find_nearby env r (list_network net) None)
         \<and> (\<forall>ev\<in>set t0. \<exists>path. ev = Readlines path)
         \<and> (\<forall>ev\<in>set rest. nearby_event ev)
         \<and> (\<forall>ips ff. Call_find_nearby ips ff \<in> set t2 \<longrightarrow> ff = Some (search_filter (s # ss)))"
proof -
  obtain rest where tr: "fst (find_nearby env r (list_network net) None)
       = Call_find_nearby (list_network net) None # rest"
    and rest: "\<forall>ev\<in>set rest. nearby_event ev"
    using find_nearby_trace by blast
  have rs: "range_scan env kwargs r = find_nearby env r (list_network net) None"
    by (simp add: range_scan_def rng net)
  have t0: "\<forall>ev\<in>set t0. \<exists>path. ev = Readlines path"
    using setup_nameservers_events[of _ env kwargs] su by auto
  have sf: "search_filter_func kwargs = Some (search_filter (s # ss))"
    by (simp add: search_filter_func_def srch)
  obtain t1 res where fn: "find_nearby env r (list_network net) None = (t1, res)"
    by (cases "find_nearby env r (list_network net) None")
  have t1: "t1 = Call_find_nearby (list_network net) None # rest"
    using tr fn by simp
  define t2 where "t2 =
     (case res of Inl e \<Rightarrow> []
      | Inr u \<Rightarrow> (case domain kwargs of None \<Rightarrow> [] | Some [] \<Rightarrow> []
                  | Some (c # cs) \<Rightarrow> fst (domain_scan env kwargs r (c # cs))))"
  have run: "fst (fierce env kwargs) = t0 @ t1 @ t2"
    by (simp add: fierce_run su rs fn t2_def split: sum.splits option.splits list.splits)
  have calls: "\<forall>ips ff. Call_find_nearby ips ff \<in> set t2 \<longrightarrow> ff = Some (search_filter (s # ss))"
    using call_in_domain_scan[of _ _ env kwargs r] sf
    by (auto simp: t2_def split: sum.splits option.splits list.splits)
  show ?thesis
    using run t1 tr t0 rest calls by auto
qed

theorem range_scan_is_unfiltered_witness:
  "range_cidr (example_config\<lparr>range_cidr := Some (167772164, 30), search := Some [''www''],
                       subdomains := Some [''www''], traverse := 1\<rparr>) = Some (167772164, 30)
   \<and> search (example_config\<lparr>range_cidr := Some (167772164, 30), search := Some [''www''],
                       subdomains := Some [''www''], traverse := 1\<rparr>) = Some [''www'']
   \<and> list_network \<lparr>network_address = 167772164, prefixlen = 30\<rparr>
       = [167772164, 167772165, 167772166, 167772167]
   \<and> fierce example_env
       (example_config\<lparr>range_cidr := Some (167772164, 30), search := Some [''www''],
                       subdomains := Some [''www''], traverse := 1\<rparr>)
     = ([Call_find_nearby [167772164, 167772165, 167772166, 167772167] None,
         Query None ''4.0.0.10.in-addr.arpa.'' ''PTR'',
         Query None ''5.0.0.10.in-addr.arpa.'' ''PTR'',
         Query None ''6.0.0.10.in-addr.arpa.'' ''PTR'',
         Query None ''7.0.0.10.in-addr.arpa.'' ''PTR'',
         Print_Nearby,
         Pprint_Nearby [(167772165, ''www.example.test.''), (167772167, ''Backup.Example.TEST.'')],
         Query None ''example.test'' ''NS'',
         Print_NS [''ns1.example.test.'', ''ns2.example.test.''],
         Query None ''example.test'' ''SOA'',
         Query None ''ns1.example.test.'' ''A'',
         Print_SOA ''ns1.example.test.'' 167772161,
         Xfr 167772161 ''example.test'',
         Print_Zone False,
         Query None ''31415926535.example.test'' ''A'',
         Print_Wildcard False,
         Query None ''www.example.test'' ''A'',
         Print_Found ''www.example.test'' 167772165,
         Call_find_nearby [167772164, 167772165, 167772166] (Some (search_filter [''www''])),
         Query None ''4.0.0.10.in-addr.arpa.'' ''PTR'',
         Query None ''5.0.0.10.in-addr.arpa.'' ''PTR'',
         Query None ''6.0.0.10.in-addr.arpa.'' ''PTR'',
         Print_Nearby,
         Pprint_Nearby [(167772165, ''www.example.test.'')]],
        Inr ())"
proof -
  let ?cfg = "example_config\<lparr>range_cidr := Some (167772164, 30), search := Some [''www''],
                       subdomains := Some [''www''], traverse := 1\<rparr>"
  let ?net = "\<lparr>network_address = 167772164, prefixlen = 30\<rparr>"
  have su: "setup_nameservers example_env ?cfg = ([], Inr None)"
    by (simp add: pipeline_defs run_defs)
  have rng: "range_cidr ?cfg = Some (167772164, 30)" by simp
  have net: "bind_exn (IPv4Address 167772164) (\<lambda>a'. IPv4Network (V4 a') 30) = Inr ?net"
    by (simp add: pipeline_defs run_defs)
  have srch: "search ?cfg = Some (''www'' # [])" by simp
  from range_scan_is_unfiltered[OF su rng net srch]
  obtain rest t2 where
    "fst (fierce example_env ?cfg) = [] @ Call_find_nearby (list_network ?net) None # rest @ t2"
    by blast
  then have "hd (fst (fierce example_env ?cfg)) = Call_find_nearby (list_network ?net) None"
    by simp
  then show ?thesis
    by (simp add: pipeline_defs run_defs example_defs sublist_code(3))
qed

lemma visit_nearby_step:
  "nearby_batches (fst (visit_nearby env kwargs r ips visited))
      = [filter (\<lambda>a. a \<notin> visited) (remdups ips)]
   \<and> found_ips (fst (visit_nearby env kwargs r ips visited)) = []
   \<and> (\<forall>v. snd (visit_nearby env kwargs r ips visited) = Inr v \<longrightarrow> v = visited \<union> (set ips - visited))"
  unfolding visit_nearby_def Let_def
  by (auto simp: fst_bind_io snd_bind_io nearby_batches_append found_ips_append
      nearby_batches_find_nearby found_ips_find_nearby return_io_def lift_io_def emit_def
      split: sum.splits option.splits if_splits)

lemma loop_body_run:
  "loop_body env kwargs r d sub visited =
     (let url = sub @ ''.'' @ d in
      case resolver_query env r url ''A'' of
        Inl e \<Rightarrow> ([Query r url ''A''], if e = NXDOMAIN then Inr visited else Inl e)
      | Inr ans \<Rightarrow>
          (case bind_exn (item0 ans) (\<lambda>rd. bind_exn (getattr (address rd)) IPv4Address) of
             Inl e \<Rightarrow> ([Query r url ''A''], Inl e)
           | Inr ip \<Rightarrow>
               (let t2 = [Query r url ''A'', Print_Found url ip] in
                if wide kwargs then
                  (case wide_expander ip of
                     Inl e \<Rightarrow> (t2, Inl e)
                   | Inr ips \<Rightarrow> (t2 @ fst (visit_nearby env kwargs r ips visited),
                                 snd (visit_nearby env kwargs r ips visited)))
                else if traverse kwargs \<noteq> 0 then
                  (case traverse_expander ip (traverse kwargs) of
                     Inl e \<Rightarrow> (t2, Inl e)
                   | Inr ips \<Rightarrow> (t2 @ fst (visit_nearby env kwargs r ips visited),
                                 snd (visit_nearby env kwargs r ips visited)))
                else (t2, Inr visited))))"
  unfolding loop_body_def
  by (simp add: query_def emit_def lift_io_def return_io_def Let_def split: sum.splits)

lemma nearby_batches_visit:
  "nearby_batches (fst (visit_nearby env kwargs r ips visited))
      = [filter (\<lambda>a. a \<notin> visited) (remdups ips)]"
  using visit_nearby_step by blast

lemma found_ips_visit: "found_ips (fst (visit_nearby env kwargs r ips visited)) = []"
  using visit_nearby_step by blast

lemma snd_visit_nearby:
  "snd (visit_nearby env kwargs r ips visited) = Inr v \<Longrightarrow> v = visited \<union> (set ips - visited)"
  using visit_nearby_step by blast

lemma loop_body_step:
  "distinct (concat (nearby_batches (fst (loop_body env kwargs r d sub visited))))
   \<and> set (concat (nearby_batches (fst (loop_body env kwargs r d sub visited))))
       = (\<Union>ip\<in>set (found_ips (fst (loop_body env kwargs r d sub visited))). set (candidates kwargs ip))
           - visited
   \<and> (\<forall>v. snd (loop_body env kwargs r d sub visited) = Inr v \<longrightarrow>
         v = visited \<union> set (concat (nearby_batches (fst (loop_body env kwargs r d sub visited)))))"
proof (cases "resolver_query env r (sub @ ''.'' @ d) ''A''")
  case (Inl e)
  then show ?thesis by (simp add: loop_body_run Let_def)
next
  case (Inr ans)
  show ?thesis
  proof (cases "bind_exn (item0 ans) (\<lambda>rd. bind_exn (getattr (address rd)) IPv4Address)")
    case (Inl e)
    then show ?thesis using Inr by (simp add: loop_body_run Let_def)
  next
    case ip: (Inr ip)
    have visit: "distinct (concat (nearby_batches ([Query r (sub @ ''.'' @ d) ''A'', Print_Found (sub @ ''.'' @ d) ip]
                    @ fst (visit_nearby env kwargs r ips visited))))
        \<and> set (concat (nearby_batches ([Query r (sub @ ''.'' @ d) ''A'', Print_Found (sub @ ''.'' @ d) ip]
                    @ fst (visit_nearby env kwargs r ips visited)))) = set ips - visited
        \<and> found_ips ([Query r (sub @ ''.'' @ d) ''A'', Print_Found (sub @ ''.'' @ d) ip]
                    @ fst (visit_nearby env kwargs r ips visited)) = [ip]
        \<and> (\<forall>v. snd (visit_nearby env kwargs r ips visited) = Inr v \<longrightarrow> v = visited \<union> (set ips - visited))"
      for ips
      using snd_visit_nearby[of env kwargs r ips visited]
      by (auto simp: nearby_batches_append found_ips_append nearby_batches_visit found_ips_visit)
    show ?thesis
    proof (cases "wide kwargs")
      case True
      show ?thesis
      proof (cases "wide_expander ip")
        case (Inl e)
        then show ?thesis using Inr ip True by (simp add: loop_body_run Let_def candidates_def)
      next
        case ips: (Inr ips)
        have c: "candidates kwargs ip = ips" using True ips by (simp add: candidates_def)
        have "loop_body env kwargs r d sub visited =
            ([Query r (sub @ ''.'' @ d) ''A'', Print_Found (sub @ ''.'' @ d) ip]
               @ fst (visit_nearby env kwargs r ips visited),
             snd (visit_nearby env kwargs r ips visited))"
          using Inr ip True ips by (simp add: loop_body_run Let_def)
        then show ?thesis using visit[of ips] c by simp
      qed
    next
      case False
      show ?thesis
      proof (cases "traverse kwargs = 0")
        case True
        then show ?thesis using Inr ip False by (simp add: loop_body_run Let_def candidates_def)
      next
        case nz: False
        show ?thesis
        proof (cases "traverse_expander ip (traverse kwargs)")
          case (Inl e)
          then show ?thesis using Inr ip False nz by (simp add: loop_body_run Let_def candidates_def)
        next
          case ips: (Inr ips)
          have c: "candidates kwargs ip = ips" using False nz ips by (simp add: candidates_def)
          have "loop_body env kwargs r d sub visited =
              ([Query r (sub @ ''.'' @ d) ''A'', Print_Found (sub @ ''.'' @ d) ip]
                 @ fst (visit_nearby env kwargs r ips visited),
               snd (visit_nearby env kwargs r ips visited))"
            using Inr ip False nz ips by (simp add: loop_body_run Let_def)
          then show ?thesis using visit[of ips] c by simp
        qed
      qed
    qed
  qed
qed

lemma subdomain_loop_invariant:
  "distinct (concat (nearby_batches (fst (subdomain_loop env kwargs r d subs visited))))
   \<and> set (concat (nearby_batches (fst (subdomain_loop env kwargs r d subs visited))))
       = (\<Union>ip\<in>set (found_ips (fst (subdomain_loop env kwargs r d subs visited))).
             set (candidates kwargs ip)) - visited
   \<and> (\<forall>v. snd (subdomain_loop env kwargs r d subs visited) = Inr v \<longrightarrow>
         v = visited \<union> set (concat (nearby_batches (fst (subdomain_loop env kwargs r d subs visited)))))"
proof (induction subs arbitrary: visited)
  case Nil
  then show ?case by (simp add: return_io_def)
next
  case (Cons sub subs)
  let ?t = "fst (loop_body env kwargs r d sub visited)"
  let ?B = "concat (nearby_batches ?t)"
  let ?X = "\<Union>ip\<in>set (found_ips ?t). set (candidates kwargs ip)"
  have body: "distinct ?B" "set ?B = ?X - visited"
    "\<forall>v. snd (loop_body env kwargs r d sub visited) = Inr v \<longrightarrow> v = visited \<union> set ?B"
    using loop_body_step[of env kwargs r d sub visited] by blast+
  show ?case
  proof (cases "snd (loop_body env kwargs r d sub visited)")
    case (Inl e)
    then have "subdomain_loop env kwargs r d (sub # subs) visited = (?t, Inl e)"
      by (cases "loop_body env kwargs r d sub visited") simp
    then show ?thesis using body by simp
  next
    case (Inr v)
    let ?t' = "fst (subdomain_loop env kwargs r d subs v)"
    let ?B' = "concat (nearby_batches ?t')"
    let ?Y = "\<Union>ip\<in>set (found_ips ?t'). set (candidates kwargs ip)"
    have v: "v = visited \<union> set ?B" using body(3) Inr by simp
    have run: "subdomain_loop env kwargs r d (sub # subs) visited
                = (?t @ ?t', snd (subdomain_loop env kwargs r d subs v))"
      using Inr by (cases "loop_body env kwargs r d sub visited") simp
    have ih: "distinct ?B'" "set ?B' = ?Y - v"
      "\<forall>w. snd (subdomain_loop env kwargs r d subs v) = Inr w \<longrightarrow> w = v \<union> set ?B'"
      using Cons.IH[of v] by blast+
    have d: "distinct (?B @ ?B')"
      using body(1) ih(1) ih(2) v by auto
    have s: "set (?B @ ?B') = (?X \<union> ?Y) - visited"
      using body(2) ih(2) v by auto
    have f: "\<forall>w. snd (subdomain_loop env kwargs r d subs v) = Inr w \<longrightarrow> w = visited \<union> set (?B @ ?B')"
      using ih(3) v by auto
    show ?thesis
      unfolding run using d s f
      by (simp add: nearby_batches_append found_ips_append Un_commute)
  qed
qed

lemma distinct_concat_disjoint:
  "distinct (concat bs) \<Longrightarrow> i < j \<Longrightarrow> j < length bs \<Longrightarrow> set (bs ! i) \<inter> set (bs ! j) = {}"
proof (induction bs arbitrary: i j)
  case Nil
  then show ?case by simp
next
  case (Cons b bs)
  show ?case
  proof (cases i)
    case 0
    then obtain j' where j: "j = Suc j'" "j' < length bs" using Cons.prems by (cases j) auto
    then have "set (bs ! j') \<subseteq> set (concat bs)" by (auto intro: nth_mem)
    then show ?thesis using Cons.prems(1) 0 j by auto
  next
    case (Suc i')
    then obtain j' where j: "j = Suc j'" "i' < j'" "j' < length bs" using Cons.prems by (cases j) auto
    then show ?thesis using Cons.IH[of i' j'] Cons.prems(1) Suc by simp
  qed
qed

text \<open>
  C1.  For the loop over the subdomains, started with any visited set (the run starts it
  with the empty set): the batches handed to \<open>find_nearby\<close>, concatenated, have no
  repetition, so every address is handed over at most once; two different batches are
  disjoint; together they are exactly the union of the candidates of all reported hits
  minus the initial visited set; the sum of their sizes is the size of that union; and
  when the loop returns, the visited set it returns contains the initial one and is the
  initial one plus everything handed over.
\<close>

theorem visited_set_deduplicates:
  "distinct (concat (nearby_batches (fst (subdomain_loop env kwargs r d subs visited))))
   \<and> (\<forall>i j. i < j \<and> j < length (nearby_batches (fst (subdomain_loop env kwargs r d subs visited)))
         \<longrightarrow> set (nearby_batches (fst (subdomain_loop env kwargs r d subs visited)) ! i)
             \<inter> set (nearby_batches (fst (subdomain_loop env kwargs r d subs visited)) ! j) = {})
   \<and> set (concat (nearby_batches (fst (subdomain_loop env kwargs r d subs visited))))
       = (\<Union>ip\<in>set (found_ips (fst (subdomain_loop env kwargs r d subs visited))).
             set (candidates kwargs ip)) - visited
   \<and> sum_list (map length (nearby_batches (fst (subdomain_loop env kwargs r d subs visited))))
       = card ((\<Union>ip\<in>set (found_ips (fst (subdomain_loop env kwargs r d subs visited))).
                  set (candidates kwargs ip)) - visited)
   \<and> (\<forall>v. snd (subdomain_loop env kwargs r d subs visited) = Inr v \<longrightarrow>
         visited \<subseteq> v
         \<and> v = visited \<union> set (concat (nearby_batches (fst (subdomain_loop env kwargs r d subs visited)))))"
proof -
  let ?bs = "nearby_batches (fst (subdomain_loop env kwargs r d subs visited))"
  let ?U = "(\<Union>ip\<in>set (found_ips (fst (subdomain_loop env kwargs r d subs visited))).
             set (candidates kwargs ip)) - visited"
  have inv: "distinct (concat ?bs)" "set (concat ?bs) = ?U"
    "\<forall>v. snd (subdomain_loop env kwargs r d subs visited) = Inr v \<longrightarrow> v = visited \<union> set (concat ?bs)"
    using subdomain_loop_invariant[of env kwargs r d subs visited] by blast+
  have pw: "\<forall>i j. i < j \<and> j < length ?bs \<longrightarrow> set (?bs ! i) \<inter> set (?bs ! j) = {}"
    using distinct_concat_disjoint[OF inv(1)] by blast
  have "sum_list (map length ?bs) = length (concat ?bs)"
    by (simp add: length_concat)
  also have "\<dots> = card (set (concat ?bs))"
    using inv(1) by (rule distinct_card[symmetric])
  finally have sz: "sum_list (map length ?bs) = card ?U"
    using inv(2) by simp
  have grow: "\<forall>v. snd (subdomain_loop env kwargs r d subs visited) = Inr v \<longrightarrow>
         visited \<subseteq> v \<and> v = visited \<union> set (concat ?bs)"
    using inv(3) by auto
  show ?thesis
    using inv(1) pw inv(2) sz grow by blast
qed

theorem visited_set_deduplicates_witness:
  "nearby_batches (fst (subdomain_loop example_env example_config None ''example.test'' [''www'', ''mail''] {}))
     = [[167772163, 167772164, 167772165, 167772166, 167772167], [167772162]]
   \<and> found_ips (fst (subdomain_loop example_env example_config None ''example.test'' [''www'', ''mail''] {}))
     = [167772165, 167772164]
   \<and> candidates example_config 167772165 = [167772163, 167772164, 167772165, 167772166, 167772167]
   \<and> candidates example_config 167772164 = [167772162, 167772163, 167772164, 167772165, 167772166]
   \<and> snd (subdomain_loop example_env example_config None ''example.test'' [''www'', ''mail''] {})
     = Inr {167772162, 167772163, 167772164, 167772165, 167772166, 167772167}
   \<and> distinct (concat [[167772163, 167772164, 167772165, 167772166, 167772167], [167772162 :: int]])
   \<and> sum_list (map length [[167772163, 167772164, 167772165, 167772166, 167772167], [167772162 :: int]])
     = card (set [167772163, 167772164, 167772165, 167772166, 167772167]
             \<union> set [167772162, 167772163, 167772164, 167772165, 167772166 :: int])"
proof -
  let ?run = "subdomain_loop example_env example_config None ''example.test'' [''www'', ''mail''] {}"
  have run: "?run =
     ([Query None ''www.example.test'' ''A'', Print_Found ''www.example.test'' 167772165,
       Call_find_nearby [167772163, 167772164, 167772165, 167772166, 167772167] None,
       Query None ''3.0.0.10.in-addr.arpa.'' ''PTR'',
       Query None ''4.0.0.10.in-addr.arpa.'' ''PTR'',
       Query None ''5.0.0.10.in-addr.arpa.'' ''PTR'',
       Query None ''6.0.0.10.in-addr.arpa.'' ''PTR'',
       Query None ''7.0.0.10.in-addr.arpa.'' ''PTR'',
       Print_Nearby,
       Pprint_Nearby [(167772163, ''db.example.test.''), (167772165, ''www.example.test.''),
                      (167772167, ''Backup.Example.TEST.'')],
       Query None ''mail.example.test'' ''A'', Print_Found ''mail.example.test'' 167772164,
       Call_find_nearby [167772162] None,
       Query None ''2.0.0.10.in-addr.arpa.'' ''PTR''],
      Inr {167772162, 167772163, 167772164, 167772165, 167772166, 167772167})"
    by (simp add: pipeline_defs run_defs example_defs) auto
  have b: "nearby_batches (fst ?run)
     = [[167772163, 167772164, 167772165, 167772166, 167772167], [167772162]]"
    and f: "found_ips (fst ?run) = [167772165, 167772164]"
    unfolding run by simp_all
  have c1: "candidates example_config 167772165 = [167772163, 167772164, 167772165, 167772166, 167772167]"
    and c2: "candidates example_config 167772164 = [167772162, 167772163, 167772164, 167772165, 167772166]"
    by (simp_all add: candidates_def pipeline_defs)
  from visited_set_deduplicates[of example_env example_config None "''example.test''" "[''www'', ''mail'']" "{}"]
  have "distinct (concat (nearby_batches (fst ?run)))"
    and "sum_list (map length (nearby_batches (fst ?run)))
       = card ((\<Union>ip\<in>set (found_ips (fst ?run)). set (candidates example_config ip)) - {})"
    by blast+
  then have "distinct (concat [[167772163, 167772164, 167772165, 167772166, 167772167], [167772162 :: int]])"
    and "sum_list (map length [[167772163, 167772164, 167772165, 167772166, 167772167], [167772162 :: int]])
      = card (set [167772163, 167772164, 167772165, 167772166, 167772167]
             \<union> set [167772162, 167772163, 167772164, 167772165, 167772166 :: int])"
    unfolding b f by (simp_all only: c1 c2 list.set UN_insert UN_empty Un_empty_right Diff_empty)
  moreover have "snd ?run = Inr {167772162, 167772163, 167772164, 167772165, 167772166, 167772167}"
    unfolding run by simp
  ultimately show ?thesis using b f c1 c2 by blast
qed

end
